theory Spec2Isabelle
  imports Complex_Main "HOL-Library.Sublist" "HOL-Library.Multiset"
begin

section \<open>Text, exceptions and library calls\<close>

text \<open>
  A Python \<open>str\<close> is a sequence of Unicode code points; a code point is a natural number.
  \<open>ustr\<close> reads an ASCII literal as such a sequence.
\<close>

type_synonym pstr = "nat list"

definition ustr :: "string \<Rightarrow> pstr" where
  "ustr s = map of_char s"

text \<open>
  Exceptions are values. Every exception of the model is an instance of Python's
  \<open>Exception\<close> (Playwright's \<open>Error\<close> and \<open>TimeoutError\<close>, \<open>OSError\<close>, \<open>ValueError\<close>, ...), so a bare
  \<open>except:\<close> and \<open>except Exception:\<close> catch the same values; \<open>KeyboardInterrupt\<close> and task
  cancellation are not modelled. \<open>PWTimeout m\<close> is an instance of
  \<open>playwright.async_api.TimeoutError\<close> with message \<open>m\<close>; \<open>Error n m\<close> is any other exception, of
  the class named \<open>n\<close>, with message \<open>m\<close>.
\<close>

datatype exn = PWTimeout pstr | Error pstr pstr

fun type_name :: "exn \<Rightarrow> pstr" where
  "type_name (PWTimeout m) = ustr ''TimeoutError''"
| "type_name (Error n m) = n"

fun message :: "exn \<Rightarrow> pstr" where
  "message (PWTimeout m) = m"
| "message (Error n m) = m"

text \<open>
  Values that \<open>json.loads\<close> returns. \<open>JNull\<close> is Python's \<open>None\<close>; a finite float is the
  rational it denotes.
\<close>

datatype json =
    JNull
  | JBool bool
  | JInt int
  | JFloat rat
  | JStr pstr
  | JList "json list"
  | JDict "(pstr \<times> json) list"

text \<open>Python truthiness (\<open>if v:\<close>).\<close>

fun truthy :: "json \<Rightarrow> bool" where
  "truthy JNull = False"
| "truthy (JBool b) = b"
| "truthy (JInt i) = (i \<noteq> 0)"
| "truthy (JFloat r) = (r \<noteq> 0)"
| "truthy (JStr s) = (s \<noteq> [])"
| "truthy (JList xs) = (xs \<noteq> [])"
| "truthy (JDict kvs) = (kvs \<noteq> [])"

text \<open>
  The functions of Python's standard library and of selectolax that the program calls
  and that are not part of the repository. They are parameters of the model:
  \<^item> \<open>str_lower\<close>: \<open>str.lower()\<close>;
  \<^item> \<open>is_space\<close>, \<open>is_digit\<close>: the classes \<open>\s\<close> and \<open>\d\<close> of \<open>re\<close> on \<open>str\<close> patterns
    (\<open>is_space\<close> is also what \<open>str.strip()\<close> removes);
  \<^item> \<open>sha1_hexdigest\<close>: \<open>hashlib.sha1(s.encode("utf-8")).hexdigest()\<close>;
  \<^item> \<open>urlparse_path\<close>: \<open>urllib.parse.urlparse(s).path\<close>;
  \<^item> \<open>urljoin\<close>: \<open>urllib.parse.urljoin(base, href)\<close>;
  \<^item> \<open>HTMLParser\<close>: selectolax's \<open>HTMLParser(html)\<close>. The parsed document is represented by
    what \<open>find_json_ld\<close> reads from it: the outcomes of \<open>n.text(strip=True)\<close> on the nodes that
    \<open>css('script[type="application/ld+json"]')\<close> yields, in document order;
  \<^item> \<open>json_loads\<close>: \<open>json.loads\<close>;
  \<^item> \<open>py_str\<close>: \<open>str(v)\<close> for a value that is not a \<open>str\<close>;
  \<^item> \<open>path_join\<close>: \<open>str(pathlib.Path(a) / b)\<close>.
\<close>

record pylib =
  str_lower :: "pstr \<Rightarrow> pstr"
  is_space :: "nat \<Rightarrow> bool"
  is_digit :: "nat \<Rightarrow> bool"
  sha1_hexdigest :: "pstr \<Rightarrow> exn + pstr"
  urlparse_path :: "pstr \<Rightarrow> exn + pstr"
  urljoin :: "pstr \<Rightarrow> pstr \<Rightarrow> exn + pstr"
  HTMLParser :: "pstr \<Rightarrow> exn + (exn + pstr) list"
  json_loads :: "pstr \<Rightarrow> exn + json"
  py_str :: "json \<Rightarrow> pstr"
  path_join :: "pstr \<Rightarrow> pstr \<Rightarrow> pstr"

text \<open>\<open>k in text\<close> on strings: \<open>k\<close> occurs in \<open>text\<close> as a contiguous substring.\<close>

fun contains :: "pstr \<Rightarrow> pstr \<Rightarrow> bool" where
  "contains k [] = (k = [])"
| "contains k (c # cs) = (prefix k (c # cs) \<or> contains k cs)"

text \<open>\<open>any(k in text for k in keys)\<close>.\<close>

definition any_in :: "pstr list \<Rightarrow> pstr \<Rightarrow> bool" where
  "any_in keys t = list_ex (\<lambda>k. contains k t) keys"

text \<open>\<open>s.strip()\<close>.\<close>

definition strip :: "pylib \<Rightarrow> pstr \<Rightarrow> pstr" where
  "strip L s = rev (dropWhile (is_space L) (rev (dropWhile (is_space L) s)))"

section \<open>Constants of the module\<close>

definition AVAIL_KEYWORDS_in_stock :: "pstr list" where
  "AVAIL_KEYWORDS_in_stock =
     [ustr ''in stock'', ustr ''available'', ustr ''ships'', ustr ''ready to ship'',
      ustr ''add to cart'']"

definition AVAIL_KEYWORDS_out_of_stock :: "pstr list" where
  "AVAIL_KEYWORDS_out_of_stock =
     [ustr ''out of stock'', ustr ''sold out'', ustr ''unavailable'', ustr ''coming soon'']"

definition RETURNS_HINTS :: "pstr list" where
  "RETURNS_HINTS = [ustr ''return'', ustr ''refund'', ustr ''exchange'']"

text \<open>
  The keyword lists written out in \<open>capture_single\<close> (lines 156 and 158), which are the lists
  the availability decision reads; the table \<open>AVAIL_KEYWORDS\<close> above is not read anywhere.
\<close>

definition out_of_stock_words :: "pstr list" where
  "out_of_stock_words = [ustr ''out of stock'', ustr ''sold out'', ustr ''unavailable'']"

definition in_stock_words :: "pstr list" where
  "in_stock_words =
     [ustr ''in stock'', ustr ''available'', ustr ''ships'', ustr ''ready to ship'',
      ustr ''add to cart'', ustr ''add to bag'', ustr ''add to basket'']"

section \<open>Slug\<close>

text \<open>
  \<open>pathlib.Path(p).name\<close> on a POSIX path: the path is cut at \<open>/\<close>, empty and \<open>.\<close> components are
  dropped, and the name is the last component left, or the empty string.
\<close>

fun split_on :: "nat \<Rightarrow> pstr \<Rightarrow> pstr list" where
  "split_on sep [] = [[]]"
| "split_on sep (c # cs) =
     (if c = sep then [] # split_on sep cs
      else (case split_on sep cs of [] \<Rightarrow> [[c]] | p # ps \<Rightarrow> (c # p) # ps))"

definition path_name :: "pstr \<Rightarrow> pstr" where
  "path_name p =
     (case filter (\<lambda>q. q \<noteq> [] \<and> q \<noteq> ustr ''.'') (split_on 47 p) of
        [] \<Rightarrow> []
      | q # qs \<Rightarrow> last (q # qs))"

definition slugify :: "pylib \<Rightarrow> pstr \<Rightarrow> exn + pstr" where
  "slugify L url =
     (case sha1_hexdigest L url of
        Inl e \<Rightarrow> Inl e
      | Inr digest \<Rightarrow>
          (let h = take 10 digest in
           case urlparse_path L url of
             Inl e \<Rightarrow> Inl e
           | Inr path \<Rightarrow>
               (let base = (if path_name path = [] then ustr ''product'' else path_name path)
                in Inr (base @ ustr ''-'' @ h))))"

section \<open>Structured data\<close>

text \<open>
  \<open>find_json_ld\<close>: the loop over the matching script nodes. A node whose text cannot be read
  or parsed is skipped; an empty text is skipped; a parsed list is spliced into the output,
  anything else is appended.
\<close>

fun find_json_ld :: "pylib \<Rightarrow> (exn + pstr) list \<Rightarrow> json list" where
  "find_json_ld L [] = []"
| "find_json_ld L (n # ns) =
     (case n of
        Inl e \<Rightarrow> find_json_ld L ns
      | Inr block \<Rightarrow>
          (if block = [] then find_json_ld L ns
           else (case json_loads L block of
                   Inl e \<Rightarrow> find_json_ld L ns
                 | Inr (JList xs) \<Rightarrow> xs @ find_json_ld L ns
                 | Inr data \<Rightarrow> data # find_json_ld L ns)))"

text \<open>\<open>dct.get(k)\<close> on a dict; \<open>JNull\<close> when the key is missing.\<close>

definition dict_get :: "(pstr \<times> json) list \<Rightarrow> pstr \<Rightarrow> json" where
  "dict_get kvs k = (case map_of kvs k of None \<Rightarrow> JNull | Some v \<Rightarrow> v)"

fun pick_first :: "(pstr \<times> json) list \<Rightarrow> pstr list \<Rightarrow> json" where
  "pick_first dct [] = JNull"
| "pick_first dct (k # ks) =
     (let v = dict_get dct k in if truthy v then v else pick_first dct ks)"

section \<open>The price pattern\<close>

text \<open>
  \<open>re.search(r"(?:\$|\<pounds>|\<euro>)\s?\d[\d,]*(?:\.\d{2})?", text)\<close> (lines 232 and 236): a currency sign,
  at most one white-space character, a digit, any run of digits and commas, and, when they
  follow, a dot and two digits. The match is the leftmost one; each part takes as much as it
  can.
\<close>

definition currency_sign :: "nat \<Rightarrow> bool" where
  "currency_sign c = (c = 36 \<or> c = 163 \<or> c = 8364)"

definition fraction_part :: "pylib \<Rightarrow> pstr \<Rightarrow> pstr" where
  "fraction_part L s =
     (case s of
        p # a # b # rest \<Rightarrow> (if p = 46 \<and> is_digit L a \<and> is_digit L b then [p, a, b] else [])
      | _ \<Rightarrow> [])"

definition amount_at :: "pylib \<Rightarrow> pstr \<Rightarrow> pstr option" where
  "amount_at L s =
     (case s of
        [] \<Rightarrow> None
      | d # rest \<Rightarrow>
          (if is_digit L d then
             (let run = takeWhile (\<lambda>x. is_digit L x \<or> x = 44) rest;
                  after = dropWhile (\<lambda>x. is_digit L x \<or> x = 44) rest
              in Some (d # run @ fraction_part L after))
           else None))"

definition price_at :: "pylib \<Rightarrow> pstr \<Rightarrow> pstr option" where
  "price_at L s =
     (case s of
        [] \<Rightarrow> None
      | c # rest \<Rightarrow>
          (if currency_sign c then
             (case (case rest of
                      [] \<Rightarrow> None
                    | x # rest' \<Rightarrow>
                        (if is_space L x then map_option ((#) x) (amount_at L rest') else None)) of
                Some m \<Rightarrow> Some (c # m)
              | None \<Rightarrow> map_option ((#) c) (amount_at L rest))
           else None))"

fun price_search :: "pylib \<Rightarrow> pstr \<Rightarrow> pstr option" where
  "price_search L [] = None"
| "price_search L (c # cs) =
     (case price_at L (c # cs) of Some m \<Rightarrow> Some m | None \<Rightarrow> price_search L cs)"

section \<open>The evidence record\<close>

datatype availability = IN_STOCK | OUT_OF_STOCK

text \<open>
  The dict \<open>evidence\<close> of \<open>capture_single\<close>. \<open>None\<close> is Python's \<open>None\<close>, which is also how an
  unknown availability is recorded; for the two schema fields it is \<open>JNull\<close>.
\<close>

record evidence =
  url :: pstr
  ts :: int
  title :: "pstr option"
  canonical :: "pstr option"
  visible_price :: "pstr option"
  visible_availability :: "availability option"
  schema_product :: json
  schema_offer :: json
  errors :: "pstr list"

definition init_evidence :: "pstr \<Rightarrow> int \<Rightarrow> evidence" where
  "init_evidence u now =
     \<lparr>url = u, ts = now, title = None, canonical = None, visible_price = None,
      visible_availability = None, schema_product = JNull, schema_offer = JNull, errors = []\<rparr>"

section \<open>The browser\<close>

text \<open>
  Every awaited call on the browser, the page or a locator is an effect whose outcome the
  program does not control. The model takes the outcomes as input, one per call site of
  \<open>capture_single\<close>, grouped by what the call returns:
  \<^item> \<open>action\<close>: calls whose value is not used (navigation, waits, screenshots, set-up and
    tear-down, writing \<open>evidence.json\<close>); the outcome is the exception raised, if any;
  \<^item> \<open>counter\<close>: \<open>locator.count()\<close>;
  \<^item> \<open>reader\<close>: \<open>inner_text()\<close>, \<open>page.title()\<close>, \<open>page.content()\<close>;
  \<^item> \<open>attrib\<close>: \<open>get_attribute(name)\<close>, \<open>None\<close> when the element lacks the attribute.
  The user agent drawn by \<open>random.choice\<close>, \<open>timeout_ms\<close> and \<open>headless\<close> are handed to the
  browser and read nowhere else; what they change is part of these outcomes.
\<close>

datatype action =
    EnsureDir | PlaywrightStart | Launch | NewContext | NewPage
  | Goto | NetworkIdle | Settle
  | ShotFull | ShotPriceText | ShotPriceCss | ShotBuyButton
  | ShotAvailText | ShotAtcBtn | ShotVariant
  | ReturnsNewPage | ReturnsGoto | ShotReturnsPage | ReturnsClose
  | ShotFooterReturns | ShotFooter
  | ContextClose | BrowserClose | PlaywrightStop | WriteEvidence

datatype counter =
  PriceText | PriceCss | BuyButton | AvailText | AtcBtn | Variant | FooterReturns | Footer

datatype reader =
  BodyTextAvail | FooterText | Content1 | Title | H1 | PriceNode | BodyTextPrice | Content2

datatype attrib = AtcDisabled | AtcAriaDisabled | CanonicalHref | MetaPrice | MetaCurrency

record world =
  act :: "action \<Rightarrow> exn option"
  counts :: "counter \<Rightarrow> exn + nat"
  texts :: "reader \<Rightarrow> exn + pstr"
  attrs :: "attrib \<Rightarrow> exn + pstr option"
  page_url :: pstr

section \<open>Steps of a capture job\<close>

text \<open>
  The state of a running job: the evidence dict, the screenshot files written so far under
  the output directory (by name, in order), and the two locals that one section of the code
  sets and a later one reads. A step returns the exception it raises, if any, and the state
  it leaves: what was mutated before a raise stays mutated.
\<close>

record jobstate =
  ev :: evidence
  shots :: "pstr list"
  got_avail_shot :: bool
  btn_enabled :: "bool option"

type_synonym step = "jobstate \<Rightarrow> exn option \<times> jobstate"

definition skip :: step where
  "skip s = (None, s)"

fun run :: "step list \<Rightarrow> step" where
  "run [] s = (None, s)"
| "run (f # fs) s = (case f s of (None, s') \<Rightarrow> run fs s' | (Some e, s') \<Rightarrow> (Some e, s'))"

text \<open>\<open>await x.screenshot(path=str(outdir / name))\<close>.\<close>

definition shoot :: "world \<Rightarrow> action \<Rightarrow> string \<Rightarrow> step" where
  "shoot W a name s =
     (case act W a of
        Some e \<Rightarrow> (Some e, s)
      | None \<Rightarrow> (None, s\<lparr>shots := shots s @ [ustr name]\<rparr>))"

text \<open>\<open>if await loc.count() > 0: yes else: no\<close>.\<close>

definition when_found :: "world \<Rightarrow> counter \<Rightarrow> step \<Rightarrow> step \<Rightarrow> step" where
  "when_found W c yes no s =
     (case counts W c of
        Inl e \<Rightarrow> (Some e, s)
      | Inr n \<Rightarrow> if n > 0 then yes s else no s)"

text \<open>\<open>try: body finally: cleanup\<close>, for a clean-up that is one awaited call.\<close>

definition try_finally :: "step \<Rightarrow> exn option \<Rightarrow> step" where
  "try_finally body cleanup s =
     (case body s of
        (r, s') \<Rightarrow> (case cleanup of Some e \<Rightarrow> (Some e, s') | None \<Rightarrow> (r, s')))"

text \<open>Lines 100 to 107: navigation, the wait for network idle that may time out, the settle delay.\<close>

definition navigate :: "world \<Rightarrow> step" where
  "navigate W s =
     (case act W Goto of
        Some e \<Rightarrow> (Some e, s)
      | None \<Rightarrow>
          (case act W NetworkIdle of
             Some (Error n m) \<Rightarrow> (Some (Error n m), s)
           | _ \<Rightarrow> (case act W Settle of Some e \<Rightarrow> (Some e, s) | None \<Rightarrow> (None, s))))"

text \<open>Lines 113 to 123.\<close>

definition price_region :: "world \<Rightarrow> step" where
  "price_region W =
     when_found W PriceText (shoot W ShotPriceText ''01-price.png'')
       (when_found W PriceCss (shoot W ShotPriceCss ''01-price.png'')
          (when_found W BuyButton (shoot W ShotBuyButton ''01-price.png'') skip))"

text \<open>Lines 126 to 132.\<close>

definition avail_region :: "world \<Rightarrow> step" where
  "avail_region W s =
     when_found W AvailText
       (\<lambda>s. case shoot W ShotAvailText ''02-availability.png'' s of
               (None, s') \<Rightarrow> (None, s'\<lparr>got_avail_shot := True\<rparr>)
             | (Some e, s') \<Rightarrow> (Some e, s'))
       skip
       (s\<lparr>got_avail_shot := False\<rparr>)"

text \<open>Lines 135 to 151: the add-to-cart control and its inferred state.\<close>

definition infer_enabled :: "world \<Rightarrow> bool option" where
  "infer_enabled W =
     (case attrs W AtcDisabled of
        Inl e \<Rightarrow> None
      | Inr disabled_attr \<Rightarrow>
          (case attrs W AtcAriaDisabled of
             Inl e \<Rightarrow> None
           | Inr aria_disabled \<Rightarrow>
               Some (disabled_attr = None \<and>
                     aria_disabled \<noteq> Some (ustr ''true'') \<and> aria_disabled \<noteq> Some (ustr ''1''))))"

definition atc_button :: "world \<Rightarrow> step" where
  "atc_button W s =
     (case counts W AtcBtn of
        Inl e \<Rightarrow> (Some e, s\<lparr>btn_enabled := None\<rparr>)
      | Inr n \<Rightarrow>
          (if n > 0 then
             (let s1 = s\<lparr>btn_enabled := infer_enabled W\<rparr>
              in if \<not> got_avail_shot s1 then shoot W ShotAtcBtn ''02-availability.png'' s1
                 else (None, s1))
           else (None, s\<lparr>btn_enabled := None\<rparr>)))"

text \<open>Lines 154 to 165: the availability decision.\<close>

definition decide_availability :: "pylib \<Rightarrow> pstr \<Rightarrow> bool option \<Rightarrow> availability option" where
  "decide_availability L body_text enabled =
     (let text_low = str_lower L body_text
      in if any_in out_of_stock_words text_low then Some OUT_OF_STOCK
         else if any_in in_stock_words text_low then Some IN_STOCK
         else (case enabled of
                 Some b \<Rightarrow> Some (if b then IN_STOCK else OUT_OF_STOCK)
               | None \<Rightarrow> None))"

definition availability_step :: "pylib \<Rightarrow> world \<Rightarrow> step" where
  "availability_step L W s =
     (case texts W BodyTextAvail of
        Inl e \<Rightarrow> (None, s\<lparr>ev := (ev s)\<lparr>visible_availability := None\<rparr>\<rparr>)
      | Inr t \<Rightarrow>
          (None, s\<lparr>ev := (ev s)\<lparr>visible_availability :=
                                  decide_availability L t (btn_enabled s)\<rparr>\<rparr>))"

text \<open>Lines 168 to 170.\<close>

definition variant_region :: "world \<Rightarrow> step" where
  "variant_region W = when_found W Variant (shoot W ShotVariant ''03-variant.png'') skip"

text \<open>Lines 173 to 186: the returns page, or the footer when it mentions returns.\<close>

definition returns_region :: "pylib \<Rightarrow> world \<Rightarrow> pstr option \<Rightarrow> step" where
  "returns_region L W returns_url s =
     (if returns_url \<noteq> None \<and> returns_url \<noteq> Some [] then
        (case act W ReturnsNewPage of
           Some e \<Rightarrow> (Some e, s)
         | None \<Rightarrow>
             try_finally
               (\<lambda>s. case act W ReturnsGoto of
                       Some e \<Rightarrow> (Some e, s)
                     | None \<Rightarrow> shoot W ShotReturnsPage ''04-returns.png'' s)
               (act W ReturnsClose) s)
      else
        when_found W FooterReturns
          (\<lambda>s. case texts W FooterText of
                  Inl e \<Rightarrow> (Some e, s)
                | Inr t \<Rightarrow>
                    (if any_in RETURNS_HINTS (str_lower L (take 500 t))
                     then shoot W ShotFooterReturns ''04-returns.png'' s
                     else (None, s)))
          skip s)"

text \<open>Lines 189 and 190.\<close>

definition footer_region :: "world \<Rightarrow> step" where
  "footer_region W = when_found W Footer (shoot W ShotFooter ''05-footer.png'') skip"

text \<open>Lines 193 and 194.\<close>

definition dom_text :: "pylib \<Rightarrow> world \<Rightarrow> step" where
  "dom_text L W s =
     (case texts W Content1 of
        Inl e \<Rightarrow> (Some e, s)
      | Inr html \<Rightarrow> (case HTMLParser L html of Inl e \<Rightarrow> (Some e, s) | Inr doc \<Rightarrow> (None, s)))"

text \<open>Lines 197 to 202 and 205 to 210: the document title, then the first heading.\<close>

definition title_step :: "pylib \<Rightarrow> world \<Rightarrow> step" where
  "title_step L W s =
     (case texts W Title of
        Inl e \<Rightarrow> (None, s\<lparr>ev := (ev s)\<lparr>title := None\<rparr>\<rparr>)
      | Inr title_text \<Rightarrow>
          (if title_text \<noteq> [] \<and> length (strip L title_text) > 0
           then (None, s\<lparr>ev := (ev s)\<lparr>title := Some (strip L title_text)\<rparr>\<rparr>)
           else (None, s)))"

definition h1_step :: "pylib \<Rightarrow> world \<Rightarrow> step" where
  "h1_step L W s =
     (if title (ev s) = None \<or> title (ev s) = Some [] then
        (case texts W H1 of
           Inl e \<Rightarrow> (None, s)
         | Inr h1 \<Rightarrow>
             (None, s\<lparr>ev := (ev s)\<lparr>title := (if h1 \<noteq> [] then Some (strip L h1) else None)\<rparr>\<rparr>))
      else (None, s))"

text \<open>Lines 213 to 221.\<close>

definition canonical_step :: "pylib \<Rightarrow> world \<Rightarrow> step" where
  "canonical_step L W s =
     (None, s\<lparr>ev := (ev s)\<lparr>canonical :=
        (case attrs W CanonicalHref of
           Inl e \<Rightarrow> None
         | Inr None \<Rightarrow> None
         | Inr (Some canon_href) \<Rightarrow>
             (if canon_href \<noteq> [] then
                (case urljoin L (page_url W) canon_href of Inl e \<Rightarrow> None | Inr u \<Rightarrow> Some u)
              else None))\<rparr>\<rparr>)"

text \<open>Lines 224 to 237: the visible price.\<close>

definition body_text_price :: "pylib \<Rightarrow> world \<Rightarrow> step" where
  "body_text_price L W s =
     (case texts W BodyTextPrice of
        Inl e \<Rightarrow> (Some e, s)
      | Inr text_sample \<Rightarrow>
          (None, s\<lparr>ev := (ev s)\<lparr>visible_price := price_search L text_sample\<rparr>\<rparr>))"

definition price_step :: "pylib \<Rightarrow> world \<Rightarrow> step" where
  "price_step L W s =
     (case texts W PriceNode of
        Inl e \<Rightarrow> body_text_price L W s
      | Inr node_price \<Rightarrow>
          (if node_price \<noteq> [] then
             (None, s\<lparr>ev := (ev s)\<lparr>visible_price := price_search L node_price\<rparr>\<rparr>)
           else body_text_price L W s))"

text \<open>
  Lines 240 to 269: the structured-data pass and the meta-tag fallback, inside one
  \<open>try\<close> whose handler appends \<open>schema_error:<class>:<message>\<close>.
\<close>

function decimal :: "nat \<Rightarrow> pstr" where
  "decimal n = (if n < 10 then [48 + n] else decimal (n div 10) @ [48 + n mod 10])"
  by pat_completeness auto
termination
  by (relation "measure id") auto

fun py_type_name :: "json \<Rightarrow> pstr" where
  "py_type_name JNull = ustr ''NoneType''"
| "py_type_name (JBool b) = ustr ''bool''"
| "py_type_name (JInt i) = ustr ''int''"
| "py_type_name (JFloat r) = ustr ''float''"
| "py_type_name (JStr s) = ustr ''str''"
| "py_type_name (JList xs) = ustr ''list''"
| "py_type_name (JDict kvs) = ustr ''dict''"

text \<open>\<open>",".join(t)\<close>: a \<open>TypeError\<close> at the first item that is not a \<open>str\<close>.\<close>

fun str_items :: "nat \<Rightarrow> json list \<Rightarrow> exn + pstr list" where
  "str_items i [] = Inr []"
| "str_items i (JStr x # xs) =
     (case str_items (Suc i) xs of Inl e \<Rightarrow> Inl e | Inr ys \<Rightarrow> Inr (x # ys))"
| "str_items i (x # xs) =
     Inl (Error (ustr ''TypeError'')
            (ustr ''sequence item '' @ decimal i @ ustr '': expected str instance, ''
             @ py_type_name x @ ustr '' found''))"

fun comma_sep :: "pstr list \<Rightarrow> pstr" where
  "comma_sep [] = []"
| "comma_sep [x] = x"
| "comma_sep (x # y # ys) = x @ ustr '','' @ comma_sep (y # ys)"

text \<open>
  Line 247: \<open>t_str = ",".join(t) if isinstance(t, list) else (str(t) if t else "")\<close>.
\<close>

definition t_str :: "pylib \<Rightarrow> json \<Rightarrow> exn + pstr" where
  "t_str L t =
     (case t of
        JList xs \<Rightarrow> (case str_items 0 xs of Inl e \<Rightarrow> Inl e | Inr ys \<Rightarrow> Inr (comma_sep ys))
      | JStr x \<Rightarrow> Inr x
      | _ \<Rightarrow> Inr (if truthy t then py_str L t else []))"

text \<open>Lines 250 to 252.\<close>

definition offer_of :: "(pstr \<times> json) list \<Rightarrow> json" where
  "offer_of block =
     (let offer = pick_first block [ustr ''offers'', ustr ''Offers'']
      in case offer of JList (x # xs) \<Rightarrow> x | _ \<Rightarrow> offer)"

text \<open>
  The loop of lines 244 to 254. It stops at the first block whose type string contains
  \<open>Product\<close> and yields that block and its offer; \<open>block.get\<close> on a block that is not a dict
  raises \<open>AttributeError\<close>.
\<close>

fun product_scan :: "pylib \<Rightarrow> json list \<Rightarrow> exn + (json \<times> json) option" where
  "product_scan L [] = Inr None"
| "product_scan L (JDict block # blocks) =
     (case t_str L (dict_get block (ustr ''@type'')) of
        Inl e \<Rightarrow> Inl e
      | Inr t \<Rightarrow>
          (if contains (ustr ''Product'') t then Inr (Some (JDict block, offer_of block))
           else product_scan L blocks))"
| "product_scan L (b # blocks) =
     Inl (Error (ustr ''AttributeError'')
            (ustr [CHR 0x27] @ py_type_name b @ ustr [CHR 0x27]
             @ ustr '' object has no attribute '' @ ustr [CHR 0x27] @ ustr ''get''
             @ ustr [CHR 0x27]))"

text \<open>Lines 257 to 265: both meta reads, or neither.\<close>

definition read_meta :: "world \<Rightarrow> pstr option \<times> pstr option" where
  "read_meta W =
     (case attrs W MetaPrice of
        Inl e \<Rightarrow> (None, None)
      | Inr meta_price \<Rightarrow>
          (case attrs W MetaCurrency of
             Inl e \<Rightarrow> (None, None)
           | Inr meta_curr \<Rightarrow> (meta_price, meta_curr)))"

definition meta_offer :: "pstr \<Rightarrow> pstr option \<Rightarrow> json" where
  "meta_offer meta_price meta_curr =
     JDict [(ustr ''price'', JStr meta_price),
            (ustr ''priceCurrency'',
             (case meta_curr of None \<Rightarrow> JNull | Some c \<Rightarrow> if c \<noteq> [] then JStr c else JNull))]"

text \<open>Lines 256 to 267.\<close>

definition meta_fallback :: "world \<Rightarrow> evidence \<Rightarrow> evidence" where
  "meta_fallback W r =
     (if \<not> truthy (schema_offer r) then
        (case read_meta W of
           (Some meta_price, meta_curr) \<Rightarrow>
             (if meta_price \<noteq> [] then r\<lparr>schema_offer := meta_offer meta_price meta_curr\<rparr> else r)
         | (None, meta_curr) \<Rightarrow> r)
      else r)"

text \<open>
  Lines 241 to 254, which read no evidence: the page content, its parse, the blocks, the scan.
\<close>

definition structured_data_pass :: "pylib \<Rightarrow> world \<Rightarrow> exn + (json \<times> json) option" where
  "structured_data_pass L W =
     (case texts W Content2 of
        Inl e \<Rightarrow> Inl e
      | Inr html \<Rightarrow>
          (case HTMLParser L html of
             Inl e \<Rightarrow> Inl e
           | Inr doc \<Rightarrow> product_scan L (find_json_ld L doc)))"

definition schema_try :: "pylib \<Rightarrow> world \<Rightarrow> step" where
  "schema_try L W s =
     (case structured_data_pass L W of
        Inl e \<Rightarrow> (Some e, s)
      | Inr None \<Rightarrow> (None, s\<lparr>ev := meta_fallback W (ev s)\<rparr>)
      | Inr (Some (block, offer)) \<Rightarrow>
          (None, s\<lparr>ev := meta_fallback W
                           ((ev s)\<lparr>schema_product := block, schema_offer := offer\<rparr>)\<rparr>))"

definition error_entry :: "string \<Rightarrow> exn \<Rightarrow> pstr" where
  "error_entry category e = ustr category @ ustr '':'' @ type_name e @ ustr '':'' @ message e"

definition record_error :: "string \<Rightarrow> exn \<Rightarrow> jobstate \<Rightarrow> jobstate" where
  "record_error category e s = s\<lparr>ev := (ev s)\<lparr>errors := errors (ev s) @ [error_entry category e]\<rparr>\<rparr>"

definition schema_step :: "pylib \<Rightarrow> world \<Rightarrow> step" where
  "schema_step L W s =
     (case schema_try L W s of
        (Some e, s') \<Rightarrow> (None, record_error ''schema_error'' e s')
      | (None, s') \<Rightarrow> (None, s'))"

section \<open>The capture job\<close>

text \<open>The body of the \<open>try\<close> of \<open>capture_single\<close> (lines 100 to 269), section by section.\<close>

definition capture_steps :: "world \<Rightarrow> step list" where
  "capture_steps W =
     [navigate W, shoot W ShotFull ''00-full.png'', price_region W, avail_region W, atc_button W]"

definition region_steps :: "pylib \<Rightarrow> world \<Rightarrow> pstr option \<Rightarrow> step list" where
  "region_steps L W returns_url =
     [variant_region W, returns_region L W returns_url, footer_region W, dom_text L W]"

definition field_steps :: "pylib \<Rightarrow> world \<Rightarrow> step list" where
  "field_steps L W = [title_step L W, h1_step L W, canonical_step L W]"

definition steps_before_price :: "pylib \<Rightarrow> world \<Rightarrow> pstr option \<Rightarrow> step list" where
  "steps_before_price L W returns_url =
     capture_steps W @ [availability_step L W] @ region_steps L W returns_url @ field_steps L W"

definition body :: "pylib \<Rightarrow> world \<Rightarrow> pstr option \<Rightarrow> step list" where
  "body L W returns_url =
     steps_before_price L W returns_url @ [price_step L W, schema_step L W]"

text \<open>Line 271: \<open>except Exception as e: evidence["errors"].append(f"page_error:...")\<close>.\<close>

definition page_error_handler :: "exn option \<times> jobstate \<Rightarrow> jobstate" where
  "page_error_handler out =
     (case out of
        (Some e, s) \<Rightarrow> record_error ''page_error'' e s
      | (None, s) \<Rightarrow> s)"

definition init_state :: "pstr \<Rightarrow> int \<Rightarrow> jobstate" where
  "init_state u now =
     \<lparr>ev = init_evidence u now, shots = [], got_avail_shot = False, btn_enabled = None\<rparr>"

text \<open>
  What a call of \<open>capture_single\<close> leaves behind: the value it returns or the exception it
  raises, the screenshot files written under the output directory, and the writes of
  \<open>evidence.json\<close>, each with the directory it went to.
\<close>

record outcome =
  returned :: "exn + evidence"
  shots_written :: "pstr list"
  json_written :: "(pstr \<times> evidence) list"

definition raises :: "exn \<Rightarrow> pstr list \<Rightarrow> outcome" where
  "raises e files = \<lparr>returned = Inl e, shots_written = files, json_written = []\<rparr>"

text \<open>
  Leaving \<open>async with async_playwright()\<close> with exception \<open>e\<close> in flight: the exit call runs,
  and an exception of its own replaces \<open>e\<close>.
\<close>

definition leave_playwright :: "world \<Rightarrow> exn \<Rightarrow> pstr list \<Rightarrow> outcome" where
  "leave_playwright W e files =
     (case act W PlaywrightStop of Some e' \<Rightarrow> raises e' files | None \<Rightarrow> raises e files)"

text \<open>The first exception among calls made one after the other.\<close>

fun first_raised :: "exn option list \<Rightarrow> exn option" where
  "first_raised [] = None"
| "first_raised (None # rs) = first_raised rs"
| "first_raised (Some e # rs) = Some e"

text \<open>
  \<open>capture_single(url, outdir, returns_url, timeout_ms, headless)\<close>; \<open>now\<close> is the value of
  \<open>int(time.time())\<close>. The handler of line 271 appends \<open>page_error:<class>:<message>\<close>; the
  \<open>finally\<close> of line 273 closes the context and the browser; the record is written after the
  \<open>async with\<close> block is left.
\<close>

definition capture_single :: "pylib \<Rightarrow> world \<Rightarrow> pstr \<Rightarrow> pstr \<Rightarrow> pstr option \<Rightarrow> int \<Rightarrow> outcome" where
  "capture_single L W u outdir returns_url now =
     (case act W EnsureDir of
        Some e \<Rightarrow> raises e []
      | None \<Rightarrow>
     (case act W PlaywrightStart of
        Some e \<Rightarrow> raises e []
      | None \<Rightarrow>
     (case first_raised [act W Launch, act W NewContext, act W NewPage] of
        Some e \<Rightarrow> leave_playwright W e []
      | None \<Rightarrow>
     (let s = page_error_handler (run (body L W returns_url) (init_state u now))
      in case first_raised [act W ContextClose, act W BrowserClose] of
           Some e \<Rightarrow> leave_playwright W e (shots s)
         | None \<Rightarrow>
     (case act W PlaywrightStop of
        Some e \<Rightarrow> raises e (shots s)
      | None \<Rightarrow>
     (case act W WriteEvidence of
        Some e \<Rightarrow> raises e (shots s)
      | None \<Rightarrow>
          \<lparr>returned = Inr (ev s), shots_written = shots s,
           json_written = [(outdir, ev s)]\<rparr>))))))"

section \<open>The batch\<close>

text \<open>
  One row of the CSV with what its job meets: the browser's answers and the clock.
\<close>

record job =
  row_url :: pstr
  row_returns_url :: "pstr option"
  job_world :: world
  job_now :: int

text \<open>\<open>run_one(u, ru)\<close>: the output directory is \<open>screenshots_dir / slugify(u)\<close>.\<close>

definition run_one :: "pylib \<Rightarrow> pstr \<Rightarrow> job \<Rightarrow> outcome" where
  "run_one L screenshots_dir j =
     (case slugify L (row_url j) of
        Inl e \<Rightarrow> raises e []
      | Inr slug \<Rightarrow>
          capture_single L (job_world j) (row_url j) (path_join L screenshots_dir slug)
            (row_returns_url j) (job_now j))"

text \<open>
  What \<open>batch\<close> leaves behind. It returns no value: its result is the \<open>evidence.json\<close> files
  written, here in the order of the writes. \<open>Hangs\<close>: the call never returns.
\<close>

datatype batch_result = Hangs | Raises exn | Done "(pstr \<times> evidence) list"

text \<open>
  Jobs in the order in which they finish. \<open>asyncio.gather\<close> without \<open>return_exceptions\<close> raises
  the first exception a job raises; what the jobs still running then do is not modelled.
\<close>

fun finish :: "pylib \<Rightarrow> pstr \<Rightarrow> job list \<Rightarrow> (pstr \<times> evidence) list \<Rightarrow> batch_result" where
  "finish L dir [] written = Done written"
| "finish L dir (j # js) written =
     (case returned (run_one L dir j) of
        Inl e \<Rightarrow> Raises e
      | Inr r \<Rightarrow> finish L dir js (written @ json_written (run_one L dir j)))"

text \<open>
  \<open>batch\<close> on the rows read from the CSV, in submission order. \<open>order\<close> lists the positions of
  the jobs in the order in which they finish, which the scheduler and the browser decide.
  \<open>asyncio.Semaphore(concurrency)\<close> raises \<open>ValueError\<close> for a negative value; with the value 0
  no job ever enters \<open>async with sem\<close>.
\<close>

definition batch :: "pylib \<Rightarrow> pstr \<Rightarrow> int \<Rightarrow> job list \<Rightarrow> nat list \<Rightarrow> batch_result" where
  "batch L screenshots_dir concurrency jobs order =
     (if concurrency < 0 then
        Raises (Error (ustr ''ValueError'') (ustr ''Semaphore initial value must be >= 0''))
      else if jobs = [] then Done []
      else if concurrency = 0 then Hangs
      else finish L screenshots_dir (map (\<lambda>i. jobs ! i) (filter (\<lambda>i. i < length jobs) order)) [])"

section \<open>Preconditions used below\<close>

text \<open>
  The calls outside the \<open>try\<close> of \<open>capture_single\<close> succeed: creating the directory, starting
  Playwright, launching the browser, opening the context and the page; closing them;
  writing the record.
\<close>

definition job_completes :: "world \<Rightarrow> bool" where
  "job_completes W =
     (act W EnsureDir = None \<and> act W PlaywrightStart = None \<and> act W Launch = None \<and>
      act W NewContext = None \<and> act W NewPage = None \<and> act W ContextClose = None \<and>
      act W BrowserClose = None \<and> act W PlaywrightStop = None \<and> act W WriteEvidence = None)"

text \<open>The record a completed job writes: the evidence dict after the body and its handler.\<close>

definition job_record :: "pylib \<Rightarrow> world \<Rightarrow> pstr \<Rightarrow> pstr option \<Rightarrow> int \<Rightarrow> evidence" where
  "job_record L W u returns_url now =
     ev (page_error_handler (run (body L W returns_url) (init_state u now)))"

section \<open>Sample inputs\<close>

text \<open>
  An instance of the library for ASCII text: ASCII case mapping, the white space (9 to 13,
  28 to 32) and the digits of the ASCII range, the SHA-1 digests and URL paths of the three
  sample URLs, \<open>urljoin\<close> on absolute references, the join of a relative directory without
  trailing slash and a name, and a document without structured data.
\<close>

definition sample_lib :: pylib where
  "sample_lib =
     \<lparr>str_lower = map (\<lambda>c. if 65 \<le> c \<and> c \<le> 90 then c + 32 else c),
      is_space = (\<lambda>c. c = 32 \<or> (9 \<le> c \<and> c \<le> 13) \<or> (28 \<le> c \<and> c \<le> 31)),
      is_digit = (\<lambda>c. 48 \<le> c \<and> c \<le> 57),
      sha1_hexdigest = (\<lambda>s.
        if s = ustr ''https://shop.example/products/widget''
          then Inr (ustr ''8f636d65fcf12c3dfc1e465d8ebc52ecf7cb6beb'')
        else if s = ustr ''https://shop.example/products/gadget''
          then Inr (ustr ''f77dd36a45f7b0e7a959387118a85797116b2301'')
        else if s = ustr ''https://shop.example/products/gizmo''
          then Inr (ustr ''5bf76d07800cb8f94aa02d705328d390f013c675'')
        else Inr (ustr ''da39a3ee5e6b4b0d3255bfef95601890afd80709'')),
      urlparse_path = (\<lambda>s.
        if s = ustr ''https://shop.example/products/widget'' then Inr (ustr ''/products/widget'')
        else if s = ustr ''https://shop.example/products/gadget'' then Inr (ustr ''/products/gadget'')
        else if s = ustr ''https://shop.example/products/gizmo'' then Inr (ustr ''/products/gizmo'')
        else Inr []),
      urljoin = (\<lambda>base href. Inr href),
      HTMLParser = (\<lambda>html. Inr []),
      json_loads = (\<lambda>s. Inl (Error (ustr ''JSONDecodeError'') (ustr ''Expecting value''))),
      py_str = (\<lambda>v. []),
      path_join = (\<lambda>a b. if a = [] then b else a @ ustr ''/'' @ b)\<rparr>"

definition widget_url :: pstr where
  "widget_url = ustr ''https://shop.example/products/widget''"

definition widget_dir :: pstr where
  "widget_dir = ustr ''evidence/widget-8f636d65fc''"

text \<open>What Playwright raises when a locator matches no element.\<close>

definition no_element :: exn where
  "no_element = PWTimeout (ustr ''Timeout 30000ms exceeded.'')"

text \<open>
  A product page on which every call succeeds: a price text, a submit button labelled
  \<open>Buy\<close>, a footer, no stock wording, no variant selector, no structured data and no price
  meta tags.
\<close>

definition widget_page :: world where
  "widget_page =
     \<lparr>act = (\<lambda>a. None),
      counts = (\<lambda>c. if c = PriceText \<or> c = AtcBtn \<or> c = Footer \<or> c = FooterReturns
                       then Inr 1 else Inr 0),
      texts = (\<lambda>r.
        if r = Title then Inr (ustr '' Widget | Shop '')
        else if r = H1 then Inr (ustr ''Widget'')
        else if r = PriceNode then Inr (ustr ''Now $1,299.00 (was $1,499.00)'')
        else if r = FooterText then Inr (ustr ''Contact us'')
        else if r = Content1 \<or> r = Content2 then Inr (ustr ''<html>widget</html>'')
        else Inr (ustr ''Widget Now $1,299.00 (was $1,499.00) Buy'')),
      attrs = (\<lambda>a.
        if a = CanonicalHref then Inr (Some (ustr ''https://shop.example/products/widget''))
        else if a = MetaPrice \<or> a = MetaCurrency then Inl no_element
        else Inr None),
      page_url = ustr ''https://shop.example/products/widget?ref=home''\<rparr>"

text \<open>The same page when navigation times out.\<close>

definition nav_timeout :: exn where
  "nav_timeout = PWTimeout (ustr ''Timeout 25000ms exceeded.'')"

definition unreachable_page :: world where
  "unreachable_page = widget_page\<lparr>act := (act widget_page)(Goto := Some nav_timeout)\<rparr>"

text \<open>The same page saying \<open>Sold Out\<close>, its button still enabled; and saying \<open>In Stock\<close>.\<close>

definition sold_out_page :: world where
  "sold_out_page =
     widget_page\<lparr>texts := (texts widget_page)(BodyTextAvail := Inr (ustr ''Widget - Sold Out''))\<rparr>"

definition in_stock_page :: world where
  "in_stock_page =
     widget_page\<lparr>texts := (texts widget_page)(BodyTextAvail := Inr (ustr ''Widget - In Stock''))\<rparr>"

text \<open>The page saying \<open>Sold Out\<close> when the screenshot of its price text times out.\<close>

definition price_shot_fails_page :: world where
  "price_shot_fails_page =
     sold_out_page\<lparr>act := (act sold_out_page)(ShotPriceText := Some no_element)\<rparr>"

text \<open>The same page with \<open>aria-disabled="1"\<close> on the button.\<close>

definition aria_one_page :: world where
  "aria_one_page =
     widget_page\<lparr>attrs := (attrs widget_page)(AtcAriaDisabled := Inr (Some (ustr ''1'')))\<rparr>"

text \<open>The same page with a price element that shows no amount.\<close>

definition call_page :: world where
  "call_page =
     widget_page\<lparr>texts := (texts widget_page)(PriceNode := Inr (ustr ''Call for price''))\<rparr>"

text \<open>
  The same page when reads fail: the title and the first heading; and the body text, the
  title, the canonical link, the price element and the second read of the page content.
\<close>

definition detached :: exn where
  "detached = Error (ustr ''Error'') (ustr ''Execution context was destroyed'')"

definition untitled_page :: world where
  "untitled_page =
     widget_page\<lparr>texts := (texts widget_page)(Title := Inl detached, H1 := Inl no_element)\<rparr>"

definition flaky_page :: world where
  "flaky_page =
     widget_page\<lparr>texts := (texts widget_page)
                     (Title := Inl detached, BodyTextAvail := Inl detached,
                      PriceNode := Inl detached, Content2 := Inl detached),
                  attrs := (attrs widget_page)(CanonicalHref := Inl detached)\<rparr>"

text \<open>
  Structured data. The widget page embeds four script nodes: a breadcrumb block, an empty
  node, a node that is not JSON, and a list holding one Product block with two offers. The
  gadget page embeds one Product block whose offers list holds an empty object, and has
  price and currency meta tags. A third page has a price meta tag and no currency meta tag.
\<close>

definition product_block :: "(pstr \<times> json) list" where
  "product_block =
     [(ustr ''@type'', JStr (ustr ''Product'')), (ustr ''name'', JStr (ustr ''Widget'')),
      (ustr ''offers'',
       JList [JDict [(ustr ''price'', JStr (ustr ''1299.00'')),
                     (ustr ''priceCurrency'', JStr (ustr ''USD''))],
              JDict [(ustr ''price'', JStr (ustr ''1499.00''))]])]"

definition empty_offer_block :: "(pstr \<times> json) list" where
  "empty_offer_block =
     [(ustr ''@type'', JStr (ustr ''Product'')), (ustr ''offers'', JList [JDict []])]"

definition breadcrumb_block :: "(pstr \<times> json) list" where
  "breadcrumb_block = [(ustr ''@type'', JStr (ustr ''BreadcrumbList''))]"

definition ld_lib :: pylib where
  "ld_lib =
     sample_lib
       \<lparr>HTMLParser := (\<lambda>html.
          if html = ustr ''<html>widget</html>''
            then Inr [Inr (ustr ''breadcrumb.json''), Inr [], Inr (ustr ''not json''),
                      Inr (ustr ''product.json'')]
          else if html = ustr ''<html>gadget</html>'' then Inr [Inr (ustr ''empty-offer.json'')]
          else Inr []),
        json_loads := (\<lambda>s.
          if s = ustr ''breadcrumb.json'' then Inr (JDict breadcrumb_block)
          else if s = ustr ''product.json'' then Inr (JList [JDict product_block])
          else if s = ustr ''empty-offer.json'' then Inr (JDict empty_offer_block)
          else Inl (Error (ustr ''JSONDecodeError'') (ustr ''Expecting value'')))\<rparr>"

definition gadget_url :: pstr where
  "gadget_url = ustr ''https://shop.example/products/gadget''"

definition gadget_dir :: pstr where
  "gadget_dir = ustr ''evidence/gadget-f77dd36a45''"

definition gadget_page :: world where
  "gadget_page =
     widget_page\<lparr>texts := (texts widget_page)
                      (Content1 := Inr (ustr ''<html>gadget</html>''),
                       Content2 := Inr (ustr ''<html>gadget</html>'')),
                  attrs := (attrs widget_page)
                      (MetaPrice := Inr (Some (ustr ''1299.00'')),
                       MetaCurrency := Inr (Some (ustr ''USD''))),
                  page_url := ustr ''https://shop.example/products/gadget''\<rparr>"

definition price_meta_only_page :: world where
  "price_meta_only_page =
     widget_page\<lparr>attrs := (attrs widget_page)(MetaPrice := Inr (Some (ustr ''1299.00'')))\<rparr>"

section \<open>Two runs\<close>

text \<open>
  What two records are compared on: every field but \<open>ts\<close>. \<open>set_ts\<close> changes the time stamp
  of a running job; a step ignores the time stamp when running it commutes with \<open>set_ts\<close>.
\<close>

definition non_timestamp_fields ::
  "evidence \<Rightarrow> pstr \<times> pstr option \<times> pstr option \<times> pstr option \<times> availability option
               \<times> json \<times> json \<times> pstr list" where
  "non_timestamp_fields r =
     (url r, title r, canonical r, visible_price r, visible_availability r, schema_product r,
      schema_offer r, errors r)"

definition set_ts :: "int \<Rightarrow> jobstate \<Rightarrow> jobstate" where
  "set_ts t s = s\<lparr>ev := (ev s)\<lparr>ts := t\<rparr>\<rparr>"

definition ignores_ts :: "step \<Rightarrow> bool" where
  "ignores_ts f = (\<forall>t s. f (set_ts t s) = apsnd (set_ts t) (f s))"

section \<open>What a batch writes\<close>

text \<open>
  The directory of a job and the write its job makes when it completes: the record of
  that job alone, under \<open>screenshots_dir / slugify(url)\<close>.
\<close>

definition job_dir :: "pylib \<Rightarrow> pstr \<Rightarrow> job \<Rightarrow> pstr" where
  "job_dir L screenshots_dir j =
     (case slugify L (row_url j) of
        Inr slug \<Rightarrow> path_join L screenshots_dir slug
      | Inl e \<Rightarrow> [])"

definition job_write :: "pylib \<Rightarrow> pstr \<Rightarrow> job \<Rightarrow> pstr \<times> evidence" where
  "job_write L screenshots_dir j =
     (job_dir L screenshots_dir j,
      job_record L (job_world j) (row_url j) (row_returns_url j) (job_now j))"

text \<open>
  Three rows, the second of which times out during navigation; and a row whose browser
  cannot be launched.
\<close>

definition gizmo_url :: pstr where
  "gizmo_url = ustr ''https://shop.example/products/gizmo''"

definition three_jobs :: "job list" where
  "three_jobs =
     [\<lparr>row_url = widget_url, row_returns_url = None, job_world = widget_page, job_now = 1700000000\<rparr>,
      \<lparr>row_url = gadget_url, row_returns_url = None, job_world = unreachable_page,
        job_now = 1700000001\<rparr>,
      \<lparr>row_url = gizmo_url, row_returns_url = None, job_world = sold_out_page,
        job_now = 1700000002\<rparr>]"

definition launch_error :: exn where
  "launch_error = Error (ustr ''Error'') (ustr ''BrowserType.launch: Executable does not exist'')"

definition no_browser :: world where
  "no_browser = widget_page\<lparr>act := (act widget_page)(Launch := Some launch_error)\<rparr>"

definition doomed_job :: job where
  "doomed_job =
     \<lparr>row_url = widget_url, row_returns_url = None, job_world = no_browser, job_now = 1700000000\<rparr>"

section \<open>Properties of the step sequence\<close>

lemmas step_defs =
  navigate_def shoot_def when_found_def skip_def try_finally_def price_region_def
  avail_region_def atc_button_def infer_enabled_def availability_step_def
  decide_availability_def variant_region_def returns_region_def footer_region_def
  dom_text_def title_step_def h1_step_def canonical_step_def price_step_def
  body_text_price_def schema_step_def schema_try_def structured_data_pass_def
  meta_fallback_def read_meta_def meta_offer_def record_error_def error_entry_def
  page_error_handler_def body_def steps_before_price_def capture_steps_def region_steps_def
  field_steps_def init_state_def init_evidence_def

lemmas word_defs =
  ustr_def any_in_def out_of_stock_words_def in_stock_words_def RETURNS_HINTS_def strip_def
  price_at_def amount_at_def fraction_part_def currency_sign_def

lemmas sample_defs =
  sample_lib_def widget_url_def widget_dir_def no_element_def widget_page_def

lemma run_append:
  "run (fs @ gs) s = (case run fs s of (None, s') \<Rightarrow> run gs s' | (Some e, s') \<Rightarrow> (Some e, s'))"
  by (induction fs arbitrary: s) (auto split: prod.splits option.splits)

text \<open>A quantity that no step of a list changes is unchanged by running the list.\<close>

lemma run_keeps:
  assumes "\<And>f s. f \<in> set fs \<Longrightarrow> g (snd (f s)) = g s"
  shows "g (snd (run fs s)) = g s"
  using assms
proof (induction fs arbitrary: s)
  case Nil
  then show ?case by simp
next
  case (Cons f fs)
  have step: "g (snd (f s)) = g s" using Cons.prems by simp
  show ?case
  proof (cases "f s")
    case (Pair r s')
    then show ?thesis using Cons step by (cases r) auto
  qed
qed

text \<open>The steps that take screenshots or only read the page leave the evidence dict alone.\<close>

lemma shoot_ev: "ev (snd (shoot W a n s)) = ev s"
  by (simp add: shoot_def split: option.splits)

lemma skip_ev: "ev (snd (skip s)) = ev s"
  by (simp add: skip_def)

lemma when_found_ev:
  assumes "\<And>s. ev (snd (yes s)) = ev s" "\<And>s. ev (snd (no s)) = ev s"
  shows "ev (snd (when_found W c yes no s)) = ev s"
  using assms by (simp add: when_found_def split: sum.splits)

lemma navigate_ev: "ev (snd (navigate W s)) = ev s"
  by (simp add: navigate_def split: option.splits exn.splits)

lemma price_region_ev: "ev (snd (price_region W s)) = ev s"
  unfolding price_region_def by (intro when_found_ev shoot_ev skip_ev)

lemma avail_region_ev: "ev (snd (avail_region W s)) = ev s"
  by (simp add: avail_region_def when_found_def shoot_def skip_def split: sum.splits option.splits)

lemma atc_button_ev: "ev (snd (atc_button W s)) = ev s"
  by (simp add: atc_button_def shoot_def Let_def split: sum.splits option.splits)

lemma variant_region_ev: "ev (snd (variant_region W s)) = ev s"
  unfolding variant_region_def by (intro when_found_ev shoot_ev skip_ev)

lemma footer_region_ev: "ev (snd (footer_region W s)) = ev s"
  unfolding footer_region_def by (intro when_found_ev shoot_ev skip_ev)

lemma returns_region_ev: "ev (snd (returns_region L W ru s)) = ev s"
  by (simp add: returns_region_def try_finally_def when_found_def shoot_def skip_def
      split: sum.splits option.splits prod.splits)

lemma dom_text_ev: "ev (snd (dom_text L W s)) = ev s"
  by (simp add: dom_text_def split: sum.splits)

lemma capture_steps_ev: "ev (snd (run (capture_steps W) s)) = ev s"
  by (rule run_keeps)
     (auto simp: capture_steps_def navigate_ev shoot_ev price_region_ev avail_region_ev
        atc_button_ev)

lemma region_steps_ev: "ev (snd (run (region_steps L W ru) s)) = ev s"
  by (rule run_keeps)
     (auto simp: region_steps_def variant_region_ev returns_region_ev footer_region_ev
        dom_text_ev)

text \<open>When set-up, tear-down and the write succeed, the job returns the record it wrote.\<close>

lemma capture_single_completes:
  assumes "job_completes W"
  shows "capture_single L W u outdir ru now =
           \<lparr>returned = Inr (job_record L W u ru now),
            shots_written = shots (page_error_handler (run (body L W ru) (init_state u now))),
            json_written = [(outdir, job_record L W u ru now)]\<rparr>"
  using assms by (simp add: capture_single_def job_completes_def job_record_def Let_def)

section \<open>Failures during navigation and capture\<close>

text \<open>
  C1, as amended. Provided the calls outside the \<open>try\<close> succeed (set-up, tear-down, the
  write), a failure raised by a step of the body is caught at job scope and recorded as one
  \<open>page_error\<close> entry, the steps after the failing one are skipped, and the record is written
  exactly once, to \<open>evidence.json\<close> in the output directory, and returned. When the failure is
  raised during navigation or one of the region captures that precede extraction, the
  record written has every evidence field still null.
\<close>

theorem page_error_recorded:
  assumes ok: "job_completes W"
      and fails: "run (body L W ru) (init_state u now) = (Some e, s)"
  shows "capture_single L W u outdir ru now =
           \<lparr>returned = Inr (ev (record_error ''page_error'' e s)), shots_written = shots s,
            json_written = [(outdir, ev (record_error ''page_error'' e s))]\<rparr>
         \<and> (fst (run (capture_steps W) (init_state u now)) \<noteq> None \<longrightarrow>
              ev s = init_evidence u now)"
proof
  have "page_error_handler (run (body L W ru) (init_state u now)) = record_error ''page_error'' e s"
    using fails by (simp add: page_error_handler_def)
  then show "capture_single L W u outdir ru now =
           \<lparr>returned = Inr (ev (record_error ''page_error'' e s)), shots_written = shots s,
            json_written = [(outdir, ev (record_error ''page_error'' e s))]\<rparr>"
    using capture_single_completes [OF ok, of L u outdir ru now]
    by (simp add: job_record_def record_error_def)
next
  show "fst (run (capture_steps W) (init_state u now)) \<noteq> None \<longrightarrow> ev s = init_evidence u now"
  proof
    assume early: "fst (run (capture_steps W) (init_state u now)) \<noteq> None"
    obtain r s0 where r: "run (capture_steps W) (init_state u now) = (r, s0)"
      by (cases "run (capture_steps W) (init_state u now)")
    with early obtain e0 where "r = Some e0" by auto
    with r fails have "s = s0"
      by (simp add: body_def steps_before_price_def run_append)
    moreover have "ev s0 = ev (init_state u now)"
      using capture_steps_ev [of W "init_state u now"] r by simp
    ultimately show "ev s = init_evidence u now"
      by (simp add: init_state_def)
  qed
qed

theorem page_error_recorded_witness:
  "job_completes unreachable_page
   \<and> run (body sample_lib unreachable_page None) (init_state widget_url 1700000000)
       = (Some nav_timeout, init_state widget_url 1700000000)
   \<and> json_written (capture_single sample_lib unreachable_page widget_url widget_dir None 1700000000)
       = [(widget_dir,
           (init_evidence widget_url 1700000000)
             \<lparr>errors := [ustr ''page_error:TimeoutError:Timeout 25000ms exceeded.'']\<rparr>)]"
proof -
  have ok: "job_completes unreachable_page"
    by (simp add: job_completes_def sample_defs nav_timeout_def unreachable_page_def)
  have fails: "run (body sample_lib unreachable_page None) (init_state widget_url 1700000000)
                 = (Some nav_timeout, init_state widget_url 1700000000)"
    by (simp add: step_defs sample_defs nav_timeout_def unreachable_page_def)
  show ?thesis
    using ok fails page_error_recorded [OF ok fails, of widget_dir]
    by (simp add: record_error_def error_entry_def init_state_def init_evidence_def
        nav_timeout_def ustr_def)
qed

text \<open>
  C1 as stated fails: after a navigation time-out nothing is extracted. The page's title
  and price text can be read, yet the record written has neither.
\<close>

theorem no_extraction_after_page_error:
  "act unreachable_page Goto = Some nav_timeout
   \<and> texts unreachable_page Title = Inr (ustr '' Widget | Shop '')
   \<and> texts unreachable_page PriceNode = Inr (ustr ''Now $1,299.00 (was $1,499.00)'')
   \<and> returned (capture_single sample_lib unreachable_page widget_url widget_dir None 1700000000)
       = Inr \<lparr>url = widget_url, ts = 1700000000, title = None, canonical = None,
              visible_price = None, visible_availability = None, schema_product = JNull,
              schema_offer = JNull,
              errors = [ustr ''page_error:TimeoutError:Timeout 25000ms exceeded.'']\<rparr>"
  by (simp add: capture_single_def step_defs sample_defs nav_timeout_def unreachable_page_def
      ustr_def)

section \<open>Which fields a step can change\<close>

lemma record_error_frame:
  assumes "\<And>r v. g (r\<lparr>errors := v\<rparr>) = g r"
  shows "g (ev (record_error c e s)) = g (ev s)"
  using assms by (simp add: record_error_def)

lemma availability_step_frame:
  assumes "\<And>r v. g (r\<lparr>visible_availability := v\<rparr>) = g r"
  shows "g (ev (snd (availability_step L W s))) = g (ev s)"
  using assms by (simp add: availability_step_def split: sum.splits)

lemma title_step_frame:
  assumes "\<And>r v. g (r\<lparr>title := v\<rparr>) = g r"
  shows "g (ev (snd (title_step L W s))) = g (ev s)"
  using assms by (simp add: title_step_def split: sum.splits)

lemma h1_step_frame:
  assumes "\<And>r v. g (r\<lparr>title := v\<rparr>) = g r"
  shows "g (ev (snd (h1_step L W s))) = g (ev s)"
  using assms by (simp add: h1_step_def split: sum.splits)

lemma canonical_step_frame:
  assumes "\<And>r v. g (r\<lparr>canonical := v\<rparr>) = g r"
  shows "g (ev (snd (canonical_step L W s))) = g (ev s)"
  using assms by (simp add: canonical_step_def)

lemma price_step_frame:
  assumes "\<And>r v. g (r\<lparr>visible_price := v\<rparr>) = g r"
  shows "g (ev (snd (price_step L W s))) = g (ev s)"
  using assms by (simp add: price_step_def body_text_price_def split: sum.splits)

lemma meta_fallback_frame:
  assumes "\<And>r v. g (r\<lparr>schema_offer := v\<rparr>) = g r"
  shows "g (meta_fallback W r) = g r"
  using assms by (simp add: meta_fallback_def split: prod.splits option.splits)

lemma schema_step_frame:
  assumes "\<And>r v. g (r\<lparr>schema_offer := v\<rparr>) = g r"
      and "\<And>r v. g (r\<lparr>schema_product := v\<rparr>) = g r"
      and "\<And>r v. g (r\<lparr>errors := v\<rparr>) = g r"
  shows "g (ev (snd (schema_step L W s))) = g (ev s)"
  using assms
  by (simp add: schema_step_def schema_try_def record_error_def meta_fallback_frame
      split: sum.splits prod.splits option.splits)

lemma after_availability_keeps:
  "visible_availability
     (ev (snd (run (region_steps L W ru @ field_steps L W @ [price_step L W, schema_step L W]) s)))
   = visible_availability (ev s)"
proof (rule run_keeps [where g = "\<lambda>s. visible_availability (ev s)"])
  fix f s
  assume "f \<in> set (region_steps L W ru @ field_steps L W @ [price_step L W, schema_step L W])"
  then consider "f \<in> set (region_steps L W ru)" | "f = title_step L W" | "f = h1_step L W"
    | "f = canonical_step L W" | "f = price_step L W" | "f = schema_step L W"
    by (auto simp: field_steps_def)
  then show "visible_availability (ev (snd (f s))) = visible_availability (ev s)"
  proof cases
    case 1
    then show ?thesis
      by (auto simp: region_steps_def variant_region_ev returns_region_ev footer_region_ev
          dom_text_ev)
  next
    case 2 then show ?thesis by (simp add: title_step_frame)
  next
    case 3 then show ?thesis by (simp add: h1_step_frame)
  next
    case 4 then show ?thesis by (simp add: canonical_step_frame)
  next
    case 5 then show ?thesis by (simp add: price_step_frame)
  next
    case 6 then show ?thesis by (simp add: schema_step_frame)
  qed
qed

lemma job_record_availability:
  assumes "run (capture_steps W) (init_state u now) = (None, s0)"
  shows "visible_availability (job_record L W u ru now)
         = visible_availability (ev (snd (availability_step L W s0)))"
proof -
  let ?rest = "region_steps L W ru @ field_steps L W @ [price_step L W, schema_step L W]"
  obtain s1 where s1: "availability_step L W s0 = (None, s1)"
    by (cases "texts W BodyTextAvail") (auto simp: availability_step_def)
  have run: "run (body L W ru) (init_state u now) = run ?rest s1"
    using assms s1 by (simp add: body_def steps_before_price_def run_append)
  obtain r s2 where out: "run ?rest s1 = (r, s2)" by (cases "run ?rest s1")
  have "visible_availability (ev s2) = visible_availability (ev s1)"
    using after_availability_keeps [of L W ru s1] out by simp
  moreover have "visible_availability (ev (page_error_handler (r, s2))) = visible_availability (ev s2)"
    by (cases r) (simp_all add: page_error_handler_def record_error_def)
  ultimately show ?thesis
    using run out s1 by (simp add: job_record_def)
qed

lemma atc_button_state:
  assumes "atc_button W s = (None, s')" "counts W AtcBtn = Inr n"
  shows "btn_enabled s' = (if n > 0 then infer_enabled W else None)"
  using assms
  by (auto simp: atc_button_def shoot_def Let_def split: if_splits option.splits)

lemma capture_steps_btn:
  assumes "run (capture_steps W) s = (None, s0)" "counts W AtcBtn = Inr n"
  shows "btn_enabled s0 = (if n > 0 then infer_enabled W else None)"
proof -
  let ?pre = "[navigate W, shoot W ShotFull ''00-full.png'', price_region W, avail_region W]"
  have split: "capture_steps W = ?pre @ [atc_button W]"
    by (simp add: capture_steps_def)
  obtain r s1 where pre: "run ?pre s = (r, s1)" by (cases "run ?pre s")
  have "r = None"
    using assms(1) pre unfolding split run_append by (cases r) auto
  then have "atc_button W s1 = (None, s0)"
    using assms(1) pre unfolding split run_append
    by (auto split: prod.splits option.splits)
  then show ?thesis using assms(2) by (rule atc_button_state)
qed

section \<open>Visible availability\<close>

text \<open>
  C3, as amended. Let the job complete and navigation and the region captures before the
  availability read succeed, and let \<open>t\<close> be the full visible text of the page. If the
  lower-cased text contains one of the out-of-stock keywords, the record's
  \<open>visible_availability\<close> is \<open>OUT_OF_STOCK\<close>, whatever the add-to-cart control says and whether
  or not an in-stock keyword occurs too; if it contains none of them but one of the in-stock
  keywords, it is \<open>IN_STOCK\<close>. The keywords are those of lines 156 and 158.
\<close>

theorem visible_text_decides_availability:
  assumes ok: "job_completes W"
      and reach: "fst (run (capture_steps W) (init_state u now)) = None"
      and read: "texts W BodyTextAvail = Inr t"
  shows "returned (capture_single L W u outdir ru now) = Inr (job_record L W u ru now)
         \<and> (any_in out_of_stock_words (str_lower L t) \<longrightarrow>
              visible_availability (job_record L W u ru now) = Some OUT_OF_STOCK)
         \<and> (\<not> any_in out_of_stock_words (str_lower L t) \<and> any_in in_stock_words (str_lower L t) \<longrightarrow>
              visible_availability (job_record L W u ru now) = Some IN_STOCK)"
proof -
  obtain s0 where s0: "run (capture_steps W) (init_state u now) = (None, s0)"
    using reach by (cases "run (capture_steps W) (init_state u now)") auto
  have "visible_availability (job_record L W u ru now)
          = decide_availability L t (btn_enabled s0)"
    using job_record_availability [OF s0, of L ru] read by (simp add: availability_step_def)
  then show ?thesis
    using capture_single_completes [OF ok, of L u outdir ru now]
    by (simp add: decide_availability_def)
qed

theorem visible_text_decides_availability_witness:
  "any_in out_of_stock_words (str_lower sample_lib (ustr ''Widget - Sold Out''))
   \<and> infer_enabled sold_out_page = Some True
   \<and> visible_availability (job_record sample_lib sold_out_page widget_url None 1700000000)
       = Some OUT_OF_STOCK
   \<and> \<not> any_in out_of_stock_words (str_lower sample_lib (ustr ''Widget - In Stock''))
   \<and> any_in in_stock_words (str_lower sample_lib (ustr ''Widget - In Stock''))
   \<and> visible_availability (job_record sample_lib in_stock_page widget_url None 1700000000)
       = Some IN_STOCK"
proof -
  have ok1: "job_completes sold_out_page" and ok2: "job_completes in_stock_page"
    by (simp_all add: job_completes_def sample_defs sold_out_page_def in_stock_page_def)
  have reach1: "fst (run (capture_steps sold_out_page) (init_state widget_url 1700000000)) = None"
   and reach2: "fst (run (capture_steps in_stock_page) (init_state widget_url 1700000000)) = None"
    by (simp_all add: step_defs sample_defs sold_out_page_def in_stock_page_def)
  have read1: "texts sold_out_page BodyTextAvail = Inr (ustr ''Widget - Sold Out'')"
   and read2: "texts in_stock_page BodyTextAvail = Inr (ustr ''Widget - In Stock'')"
    by (simp_all add: sample_defs sold_out_page_def in_stock_page_def)
  have out1: "any_in out_of_stock_words (str_lower sample_lib (ustr ''Widget - Sold Out''))"
    by (simp add: word_defs sample_lib_def)
  have out2: "\<not> any_in out_of_stock_words (str_lower sample_lib (ustr ''Widget - In Stock''))"
    by (simp add: word_defs sample_lib_def)
  have in2: "any_in in_stock_words (str_lower sample_lib (ustr ''Widget - In Stock''))"
    by (simp add: word_defs sample_lib_def)
  have enabled: "infer_enabled sold_out_page = Some True"
    by (simp add: infer_enabled_def sample_defs sold_out_page_def in_stock_page_def)
  show ?thesis
    using out1 out2 in2 enabled
      visible_text_decides_availability [OF ok1 reach1 read1, of sample_lib widget_dir None]
      visible_text_decides_availability [OF ok2 reach2 read2, of sample_lib widget_dir None]
    by simp
qed

text \<open>
  C3 as stated fails: the visible text says \<open>Sold Out\<close> and holds no in-stock keyword, but
  the screenshot of the price text raises before the text is read, and the record written
  has a null \<open>visible_availability\<close> and the \<open>page_error\<close> entry.
\<close>

theorem capture_failure_hides_sold_out:
  "counts price_shot_fails_page PriceText = Inr 1
   \<and> act price_shot_fails_page ShotPriceText = Some no_element
   \<and> texts price_shot_fails_page BodyTextAvail = Inr (ustr ''Widget - Sold Out'')
   \<and> any_in out_of_stock_words (str_lower sample_lib (ustr ''Widget - Sold Out''))
   \<and> \<not> any_in in_stock_words (str_lower sample_lib (ustr ''Widget - Sold Out''))
   \<and> map_sum id (\<lambda>r. (visible_availability r, errors r))
        (returned (capture_single sample_lib price_shot_fails_page widget_url widget_dir None
                     1700000000))
       = Inr (None, [ustr ''page_error:TimeoutError:Timeout 30000ms exceeded.''])"
  by (simp add: capture_single_def step_defs sample_defs sold_out_page_def
      price_shot_fails_page_def word_defs)

text \<open>
  C4, as amended. Let the job complete, navigation and the region captures succeed, and
  the lower-cased visible text contain no out-of-stock and no in-stock keyword. If no
  add-to-cart control is found, or one of its two attribute reads raises,
  \<open>visible_availability\<close> is null (the record's value for unknown). Otherwise it is \<open>IN_STOCK\<close>
  exactly when the \<open>disabled\<close> attribute is absent and \<open>aria-disabled\<close> is neither \<open>"true"\<close> nor
  \<open>"1"\<close>, and \<open>OUT_OF_STOCK\<close> when one of the attributes marks the control disabled. The field
  takes no other value.
\<close>

theorem control_state_decides_availability:
  assumes ok: "job_completes W"
      and reach: "fst (run (capture_steps W) (init_state u now)) = None"
      and read: "texts W BodyTextAvail = Inr t"
      and no_out: "\<not> any_in out_of_stock_words (str_lower L t)"
      and no_in: "\<not> any_in in_stock_words (str_lower L t)"
      and button: "counts W AtcBtn = Inr n"
  shows "returned (capture_single L W u outdir ru now) = Inr (job_record L W u ru now)
         \<and> visible_availability (job_record L W u ru now)
             = (if n = 0 then None
                else case (attrs W AtcDisabled, attrs W AtcAriaDisabled) of
                       (Inr disabled_attr, Inr aria_disabled) \<Rightarrow>
                         Some (if disabled_attr = None \<and> aria_disabled \<noteq> Some (ustr ''true'')
                                  \<and> aria_disabled \<noteq> Some (ustr ''1'')
                               then IN_STOCK else OUT_OF_STOCK)
                     | _ \<Rightarrow> None)
         \<and> visible_availability (job_record L W u ru now) \<in> {Some IN_STOCK, Some OUT_OF_STOCK, None}"
proof -
  obtain s0 where s0: "run (capture_steps W) (init_state u now) = (None, s0)"
    using reach by (cases "run (capture_steps W) (init_state u now)") auto
  have btn: "btn_enabled s0 = (if n > 0 then infer_enabled W else None)"
    using s0 button by (rule capture_steps_btn)
  have "visible_availability (job_record L W u ru now)
          = decide_availability L t (btn_enabled s0)"
    using job_record_availability [OF s0, of L ru] read by (simp add: availability_step_def)
  also have "\<dots> = (case btn_enabled s0 of
                      Some b \<Rightarrow> Some (if b then IN_STOCK else OUT_OF_STOCK) | None \<Rightarrow> None)"
    using no_out no_in by (simp add: decide_availability_def)
  finally have va: "visible_availability (job_record L W u ru now)
      = (case btn_enabled s0 of
           Some b \<Rightarrow> Some (if b then IN_STOCK else OUT_OF_STOCK) | None \<Rightarrow> None)" .
  have three: "visible_availability (job_record L W u ru now) \<in> {Some IN_STOCK, Some OUT_OF_STOCK, None}"
    unfolding va by (simp split: option.splits)
  show ?thesis
    using capture_single_completes [OF ok, of L u outdir ru now] three
    unfolding va btn
    by (simp add: infer_enabled_def split: sum.splits)
qed

theorem control_state_decides_availability_witness:
  "counts widget_page AtcBtn = Inr 1
   \<and> attrs widget_page AtcDisabled = Inr None
   \<and> attrs widget_page AtcAriaDisabled = Inr None
   \<and> visible_availability (job_record sample_lib widget_page widget_url None 1700000000)
       = Some IN_STOCK"
proof -
  have ok: "job_completes widget_page"
    by (simp add: job_completes_def sample_defs)
  have reach: "fst (run (capture_steps widget_page) (init_state widget_url 1700000000)) = None"
    by (simp add: step_defs sample_defs)
  have read: "texts widget_page BodyTextAvail
                = Inr (ustr ''Widget Now $1,299.00 (was $1,499.00) Buy'')"
    by (simp add: sample_defs)
  have no_out: "\<not> any_in out_of_stock_words
                   (str_lower sample_lib (ustr ''Widget Now $1,299.00 (was $1,499.00) Buy''))"
    by (simp add: word_defs sample_lib_def)
  have no_in: "\<not> any_in in_stock_words
                  (str_lower sample_lib (ustr ''Widget Now $1,299.00 (was $1,499.00) Buy''))"
    by (simp add: word_defs sample_lib_def)
  have button: "counts widget_page AtcBtn = Inr 1"
    by (simp add: sample_defs)
  have attrs: "attrs widget_page AtcDisabled = Inr None"
    "attrs widget_page AtcAriaDisabled = Inr None"
    by (simp_all add: sample_defs)
  show ?thesis
    using button attrs
      control_state_decides_availability [OF ok reach read no_out no_in button,
        of widget_dir None]
    by simp
qed

text \<open>
  C4 as stated fails at \<open>aria-disabled="1"\<close>: the \<open>disabled\<close> attribute is absent,
  \<open>aria-disabled\<close> is not \<open>"true"\<close>, no availability keyword occurs in the text, and the record
  says \<open>OUT_OF_STOCK\<close>.
\<close>

theorem aria_disabled_one_is_out_of_stock:
  "counts aria_one_page AtcBtn = Inr 1
   \<and> attrs aria_one_page AtcDisabled = Inr None
   \<and> attrs aria_one_page AtcAriaDisabled = Inr (Some (ustr ''1''))
   \<and> ustr ''1'' \<noteq> ustr ''true''
   \<and> texts aria_one_page BodyTextAvail = Inr (ustr ''Widget Now $1,299.00 (was $1,499.00) Buy'')
   \<and> \<not> any_in out_of_stock_words
         (str_lower sample_lib (ustr ''Widget Now $1,299.00 (was $1,499.00) Buy''))
   \<and> \<not> any_in in_stock_words
         (str_lower sample_lib (ustr ''Widget Now $1,299.00 (was $1,499.00) Buy''))
   \<and> map_sum id visible_availability
         (returned (capture_single sample_lib aria_one_page widget_url widget_dir None 1700000000))
       = Inr (Some OUT_OF_STOCK)"
  by (simp add: capture_single_def step_defs sample_defs aria_one_page_def word_defs)

section \<open>Visible price\<close>

lemma steps_before_price_keep:
  assumes "\<And>r v. g (r\<lparr>visible_availability := v\<rparr>) = g r"
      and "\<And>r v. g (r\<lparr>title := v\<rparr>) = g r"
      and "\<And>r v. g (r\<lparr>canonical := v\<rparr>) = g r"
  shows "g (ev (snd (run (steps_before_price L W ru) s))) = g (ev s)"
proof (rule run_keeps [where g = "\<lambda>s. g (ev s)"])
  fix f s
  assume "f \<in> set (steps_before_price L W ru)"
  then consider "f \<in> set (capture_steps W)" | "f = availability_step L W"
    | "f \<in> set (region_steps L W ru)" | "f = title_step L W" | "f = h1_step L W"
    | "f = canonical_step L W"
    by (auto simp: steps_before_price_def field_steps_def)
  then show "g (ev (snd (f s))) = g (ev s)"
  proof cases
    case 1
    then show ?thesis
      by (auto simp: capture_steps_def navigate_ev shoot_ev price_region_ev avail_region_ev
          atc_button_ev)
  next
    case 2 then show ?thesis by (simp add: availability_step_frame assms)
  next
    case 3
    then show ?thesis
      by (auto simp: region_steps_def variant_region_ev returns_region_ev footer_region_ev
          dom_text_ev)
  next
    case 4 then show ?thesis by (simp add: title_step_frame assms)
  next
    case 5 then show ?thesis by (simp add: h1_step_frame assms)
  next
    case 6 then show ?thesis by (simp add: canonical_step_frame assms)
  qed
qed

lemma schema_step_never_raises: "fst (schema_step L W s) = None"
  by (simp add: schema_step_def split: prod.splits option.splits)

text \<open>The record of a job whose steps before the price step all complete.\<close>

lemma job_record_after_prefix:
  assumes "run (steps_before_price L W ru) (init_state u now) = (None, s)"
  shows "job_record L W u ru now =
           (case price_step L W s of
              (Some e, s') \<Rightarrow> ev (record_error ''page_error'' e s')
            | (None, s') \<Rightarrow> ev (snd (schema_step L W s')))"
proof (cases "price_step L W s")
  case (Pair r s')
  show ?thesis
  proof (cases r)
    case None
    obtain s'' where "schema_step L W s' = (None, s'')"
      using schema_step_never_raises [of L W s'] by (cases "schema_step L W s'") auto
    then show ?thesis
      using assms Pair None
      by (simp add: job_record_def body_def run_append page_error_handler_def)
  next
    case (Some e)
    then show ?thesis
      using assms Pair
      by (simp add: job_record_def body_def run_append page_error_handler_def)
  qed
qed

text \<open>
  C6, as amended. Let the job complete and every step before the price step succeed. If
  the text of the price-labelled element can be read and is not empty, \<open>visible_price\<close> is the
  first match of the currency pattern in that text, and null when that text has no match:
  the page text is not consulted then. Only when the element's text cannot be read or is
  empty is \<open>visible_price\<close> the first match in the full visible text of the page, and null when
  there is none or the page text cannot be read.
\<close>

theorem visible_price_order:
  assumes ok: "job_completes W"
      and reach: "fst (run (steps_before_price L W ru) (init_state u now)) = None"
  shows "returned (capture_single L W u outdir ru now) = Inr (job_record L W u ru now)
         \<and> visible_price (job_record L W u ru now)
             = (let page = (case texts W BodyTextPrice of
                              Inr text_sample \<Rightarrow> price_search L text_sample
                            | Inl e \<Rightarrow> None)
                in case texts W PriceNode of
                     Inr node_price \<Rightarrow> if node_price \<noteq> [] then price_search L node_price else page
                   | Inl e \<Rightarrow> page)"
proof -
  obtain s where s: "run (steps_before_price L W ru) (init_state u now) = (None, s)"
    using reach by (cases "run (steps_before_price L W ru) (init_state u now)") auto
  have "visible_price (ev s) = visible_price (ev (init_state u now))"
    using steps_before_price_keep [of visible_price L W ru "init_state u now"] s by simp
  then have none: "visible_price (ev s) = None"
    by (simp add: init_state_def init_evidence_def)
  have keep: "visible_price (ev (snd (schema_step L W s'))) = visible_price (ev s')" for s'
    by (simp add: schema_step_frame)
  have "visible_price (job_record L W u ru now)
          = (let page = (case texts W BodyTextPrice of
                              Inr text_sample \<Rightarrow> price_search L text_sample
                            | Inl e \<Rightarrow> None)
                in case texts W PriceNode of
                     Inr node_price \<Rightarrow> if node_price \<noteq> [] then price_search L node_price else page
                   | Inl e \<Rightarrow> page)"
    unfolding job_record_after_prefix [OF s]
    using none
    by (simp add: price_step_def body_text_price_def keep record_error_def Let_def
        split: sum.splits)
  then show ?thesis
    using capture_single_completes [OF ok, of L u outdir ru now] by simp
qed

theorem visible_price_order_witness:
  "texts widget_page PriceNode = Inr (ustr ''Now $1,299.00 (was $1,499.00)'')
   \<and> visible_price (job_record sample_lib widget_page widget_url None 1700000000)
       = Some (ustr ''$1,299.00'')"
proof -
  have ok: "job_completes widget_page"
    by (simp add: job_completes_def sample_defs)
  have reach: "fst (run (steps_before_price sample_lib widget_page None)
                      (init_state widget_url 1700000000)) = None"
    by (simp add: step_defs sample_defs word_defs)
  have node: "texts widget_page PriceNode = Inr (ustr ''Now $1,299.00 (was $1,499.00)'')"
    by (simp add: sample_defs)
  have first: "price_search sample_lib (ustr ''Now $1,299.00 (was $1,499.00)'')
                 = Some (ustr ''$1,299.00'')"
    by (simp add: word_defs sample_lib_def)
  show ?thesis
    using node first visible_price_order [OF ok reach, of widget_dir]
    by (simp add: ustr_def)
qed

text \<open>
  C6 as stated fails: the price element reads \<open>Call for price\<close>, the page text holds
  \<open>$1,299.00\<close>, and \<open>visible_price\<close> is null.
\<close>

theorem no_fallback_when_price_element_has_text:
  "texts call_page PriceNode = Inr (ustr ''Call for price'')
   \<and> price_search sample_lib (ustr ''Call for price'') = None
   \<and> texts call_page BodyTextPrice = Inr (ustr ''Widget Now $1,299.00 (was $1,499.00) Buy'')
   \<and> price_search sample_lib (ustr ''Widget Now $1,299.00 (was $1,499.00) Buy'')
       = Some (ustr ''$1,299.00'')
   \<and> map_sum id visible_price
         (returned (capture_single sample_lib call_page widget_url widget_dir None 1700000000))
       = Inr None"
  by (simp add: capture_single_def step_defs sample_defs call_page_def word_defs)

section \<open>Failures while deriving a field\<close>

text \<open>
  C5, as amended. Deriving \<open>visible_availability\<close>, \<open>title\<close> (from the document title or from the
  first heading), \<open>canonical\<close> and the schema fields never raises, whatever the browser
  answers. A failed read of the body text, of the title or of the canonical link leaves the
  field null and appends nothing to \<open>errors\<close>; a failed read of the price element is
  swallowed too and the price is then sought in the page text. Only a failure of the
  structured-data pass is recorded: \<open>schema_error:<class>:<message>\<close> is appended and the rest
  of the record, the schema fields included, stays as it was.
\<close>

theorem field_failures_are_contained:
  "fst (availability_step L W s) = None \<and> fst (title_step L W s) = None
   \<and> fst (h1_step L W s) = None \<and> fst (canonical_step L W s) = None
   \<and> fst (schema_step L W s) = None
   \<and> errors (ev (snd (availability_step L W s))) = errors (ev s)
   \<and> errors (ev (snd (title_step L W s))) = errors (ev s)
   \<and> errors (ev (snd (h1_step L W s))) = errors (ev s)
   \<and> errors (ev (snd (canonical_step L W s))) = errors (ev s)
   \<and> (texts W BodyTextAvail = Inl e \<longrightarrow>
        visible_availability (ev (snd (availability_step L W s))) = None)
   \<and> (texts W Title = Inl e \<longrightarrow> title (ev (snd (title_step L W s))) = None)
   \<and> (attrs W CanonicalHref = Inl e \<longrightarrow> canonical (ev (snd (canonical_step L W s))) = None)
   \<and> (texts W PriceNode = Inl e \<longrightarrow> price_step L W s = body_text_price L W s)
   \<and> (structured_data_pass L W = Inl e \<longrightarrow>
        ev (snd (schema_step L W s))
          = (ev s)\<lparr>errors := errors (ev s) @ [error_entry ''schema_error'' e]\<rparr>)"
proof -
  have a: "fst (availability_step L W s) = None"
    by (simp add: availability_step_def split: sum.splits)
  have b: "fst (title_step L W s) = None"
    by (simp add: title_step_def split: sum.splits)
  have c: "fst (h1_step L W s) = None"
    by (simp add: h1_step_def split: sum.splits)
  have d: "fst (canonical_step L W s) = None"
    by (simp add: canonical_step_def)
  have e: "fst (schema_step L W s) = None"
    by (rule schema_step_never_raises)
  have f: "errors (ev (snd (availability_step L W s))) = errors (ev s)"
    by (simp add: availability_step_frame)
  have g: "errors (ev (snd (title_step L W s))) = errors (ev s)"
    by (simp add: title_step_frame)
  have h: "errors (ev (snd (h1_step L W s))) = errors (ev s)"
    by (simp add: h1_step_frame)
  have i: "errors (ev (snd (canonical_step L W s))) = errors (ev s)"
    by (simp add: canonical_step_frame)
  have j: "texts W BodyTextAvail = Inl e \<longrightarrow>
        visible_availability (ev (snd (availability_step L W s))) = None"
    by (simp add: availability_step_def)
  have k: "texts W Title = Inl e \<longrightarrow> title (ev (snd (title_step L W s))) = None"
    by (simp add: title_step_def)
  have l: "attrs W CanonicalHref = Inl e \<longrightarrow> canonical (ev (snd (canonical_step L W s))) = None"
    by (simp add: canonical_step_def)
  have m: "texts W PriceNode = Inl e \<longrightarrow> price_step L W s = body_text_price L W s"
    by (simp add: price_step_def)
  have n: "structured_data_pass L W = Inl e \<longrightarrow>
        ev (snd (schema_step L W s))
          = (ev s)\<lparr>errors := errors (ev s) @ [error_entry ''schema_error'' e]\<rparr>"
    by (simp add: schema_step_def schema_try_def record_error_def)
  show ?thesis
    using a b c d e f g h i j k l m n by blast
qed

theorem field_failures_are_contained_witness:
  "texts flaky_page BodyTextAvail = Inl detached
   \<and> texts flaky_page Title = Inl detached
   \<and> attrs flaky_page CanonicalHref = Inl detached
   \<and> texts flaky_page PriceNode = Inl detached
   \<and> structured_data_pass sample_lib flaky_page = Inl detached
   \<and> title (ev (snd (title_step sample_lib flaky_page (init_state widget_url 1700000000)))) = None
   \<and> errors (ev (snd (title_step sample_lib flaky_page (init_state widget_url 1700000000)))) = []
   \<and> ev (snd (schema_step sample_lib flaky_page (init_state widget_url 1700000000)))
       = (init_evidence widget_url 1700000000)
           \<lparr>errors := [ustr ''schema_error:Error:Execution context was destroyed'']\<rparr>"
proof -
  have reads: "texts flaky_page BodyTextAvail = Inl detached"
    "texts flaky_page Title = Inl detached"
    "texts flaky_page PriceNode = Inl detached"
    by (simp_all add: flaky_page_def sample_defs detached_def)
  have canon: "attrs flaky_page CanonicalHref = Inl detached"
    by (simp add: flaky_page_def sample_defs detached_def)
  have pass: "structured_data_pass sample_lib flaky_page = Inl detached"
    by (simp add: structured_data_pass_def flaky_page_def sample_defs detached_def)
  show ?thesis
    using reads canon pass
      field_failures_are_contained [of sample_lib flaky_page "init_state widget_url 1700000000"
        detached]
    by (simp add: init_state_def init_evidence_def error_entry_def detached_def ustr_def)
qed

text \<open>
  C5 as stated fails: reading the title raises, and the record written has a null title
  and an empty \<open>errors\<close> list.
\<close>

theorem title_failure_leaves_no_error:
  "texts untitled_page Title = Inl detached
   \<and> map_sum id (\<lambda>r. (title r, errors r))
        (returned (capture_single sample_lib untitled_page widget_url widget_dir None 1700000000))
       = Inr (None, [])"
  by (simp add: capture_single_def step_defs sample_defs detached_def untitled_page_def word_defs)

section \<open>Structured data and the meta-tag fallback\<close>

lemma product_scan_first:
  assumes "\<forall>x\<in>set pre. \<exists>kvs t. x = JDict kvs \<and> t_str L (dict_get kvs (ustr ''@type'')) = Inr t
                               \<and> \<not> contains (ustr ''Product'') t"
      and "t_str L (dict_get b (ustr ''@type'')) = Inr t"
      and "contains (ustr ''Product'') t"
  shows "product_scan L (pre @ JDict b # post) = Inr (Some (JDict b, offer_of b))"
  using assms
proof (induction pre)
  case Nil
  then show ?case by simp
next
  case (Cons x pre)
  then obtain kvs t' where x: "x = JDict kvs" "t_str L (dict_get kvs (ustr ''@type'')) = Inr t'"
    "\<not> contains (ustr ''Product'') t'"
    by auto
  have "product_scan L (pre @ JDict b # post) = Inr (Some (JDict b, offer_of b))"
    using Cons by simp
  then show ?case using x by simp
qed

lemma json_smaller: "size x < size (JList (x # xs))"
  by simp

lemma first_is_not_whole: "x \<noteq> JList (x # xs)"
proof
  assume "x = JList (x # xs)"
  then have "size x = size (JList (x # xs))" by simp
  then show False by simp
qed

text \<open>The record of a job whose steps before the schema step all complete.\<close>

lemma job_record_schema:
  assumes "run (steps_before_price L W ru @ [price_step L W]) (init_state u now) = (None, s)"
  shows "job_record L W u ru now = ev (snd (schema_step L W s))"
    and "schema_product (ev s) = JNull" and "schema_offer (ev s) = JNull" and "errors (ev s) = []"
proof -
  obtain s1 where s1: "run (steps_before_price L W ru) (init_state u now) = (None, s1)"
    and p: "price_step L W s1 = (None, s)"
    using assms by (auto simp: run_append split: prod.splits option.splits)
  obtain s' where "schema_step L W s = (None, s')"
    using schema_step_never_raises [of L W s] by (cases "schema_step L W s") auto
  then show "job_record L W u ru now = ev (snd (schema_step L W s))"
    using s1 p by (simp add: job_record_def body_def run_append page_error_handler_def)
  have s_eq: "s = snd (price_step L W s1)" using p by simp
  have "schema_product (ev s) = schema_product (ev (init_state u now))"
    using steps_before_price_keep [of schema_product L W ru "init_state u now"] s1
    by (simp add: s_eq price_step_frame)
  then show "schema_product (ev s) = JNull" by (simp add: init_state_def init_evidence_def)
  have "schema_offer (ev s) = schema_offer (ev (init_state u now))"
    using steps_before_price_keep [of schema_offer L W ru "init_state u now"] s1
    by (simp add: s_eq price_step_frame)
  then show "schema_offer (ev s) = JNull" by (simp add: init_state_def init_evidence_def)
  have "errors (ev s) = errors (ev (init_state u now))"
    using steps_before_price_keep [of errors L W ru "init_state u now"] s1
    by (simp add: s_eq price_step_frame)
  then show "errors (ev s) = []" by (simp add: init_state_def init_evidence_def)
qed

text \<open>
  C7, as amended. Let the job complete and every step before the structured-data pass
  succeed. Among the parsed blocks, let \<open>b\<close> be a mapping whose type string contains
  \<open>Product\<close>, every block before it being a mapping whose type string does not; the type
  string of a list is its items joined by commas, so a tag that is a string and a tag that
  is a list of strings are both matched, case-sensitively. Then \<open>schema_product\<close> is \<open>b\<close>. If
  the value under \<open>offers\<close>, or under \<open>Offers\<close> when the former is missing or empty, is a
  non-empty list, then \<open>schema_offer\<close> is the first element of that list, never the list,
  provided the element is not empty; an empty first element is kept only when the
  meta-tag fallback finds no price, and is replaced by the meta-tag record otherwise.
\<close>

theorem product_block_and_first_offer:
  assumes ok: "job_completes W"
      and reach: "fst (run (steps_before_price L W ru @ [price_step L W]) (init_state u now)) = None"
      and content: "texts W Content2 = Inr html"
      and parsed: "HTMLParser L html = Inr doc"
      and blocks: "find_json_ld L doc = pre @ JDict b # post"
      and earlier: "\<forall>x\<in>set pre. \<exists>kvs t. x = JDict kvs
                      \<and> t_str L (dict_get kvs (ustr ''@type'')) = Inr t
                      \<and> \<not> contains (ustr ''Product'') t"
      and tag: "t_str L (dict_get b (ustr ''@type'')) = Inr t"
      and product: "contains (ustr ''Product'') t"
      and offers: "(if truthy (dict_get b (ustr ''offers'')) then dict_get b (ustr ''offers'')
                    else dict_get b (ustr ''Offers'')) = JList (x # xs)"
  shows "returned (capture_single L W u outdir ru now) = Inr (job_record L W u ru now)
         \<and> schema_product (job_record L W u ru now) = JDict b
         \<and> schema_offer (job_record L W u ru now)
             = (if truthy x then x
                else (case read_meta W of
                        (Some meta_price, meta_curr) \<Rightarrow>
                          if meta_price \<noteq> [] then meta_offer meta_price meta_curr else x
                      | (None, meta_curr) \<Rightarrow> x))
         \<and> x \<noteq> JList (x # xs)"
proof -
  obtain s where s: "run (steps_before_price L W ru @ [price_step L W]) (init_state u now) = (None, s)"
    using reach
    by (cases "run (steps_before_price L W ru @ [price_step L W]) (init_state u now)") auto
  note facts = job_record_schema [OF s]
  have offer: "offer_of b = x"
    using offers by (simp add: offer_of_def Let_def split: if_splits)
  have pass: "structured_data_pass L W = Inr (Some (JDict b, x))"
    using content parsed blocks product_scan_first [OF earlier tag product, of post] offer
    by (simp add: structured_data_pass_def)
  have "schema_product (ev (snd (schema_step L W s))) = JDict b"
    using pass
    by (simp add: schema_step_def schema_try_def meta_fallback_frame)
  moreover have "schema_offer (ev (snd (schema_step L W s)))
      = (if truthy x then x
                else (case read_meta W of
                        (Some meta_price, meta_curr) \<Rightarrow>
                          if meta_price \<noteq> [] then meta_offer meta_price meta_curr else x
                      | (None, meta_curr) \<Rightarrow> x))"
    using pass
    by (simp add: schema_step_def schema_try_def meta_fallback_def
        split: prod.splits option.splits)
  ultimately show ?thesis
    using capture_single_completes [OF ok, of L u outdir ru now] facts(1) first_is_not_whole
    by simp
qed

theorem product_block_and_first_offer_witness:
  "find_json_ld ld_lib
     [Inr (ustr ''breadcrumb.json''), Inr [], Inr (ustr ''not json''), Inr (ustr ''product.json'')]
     = [JDict breadcrumb_block, JDict product_block]
   \<and> schema_product (job_record ld_lib widget_page widget_url None 1700000000) = JDict product_block
   \<and> schema_offer (job_record ld_lib widget_page widget_url None 1700000000)
       = JDict [(ustr ''price'', JStr (ustr ''1299.00'')), (ustr ''priceCurrency'', JStr (ustr ''USD''))]"
proof -
  let ?x = "JDict [(ustr ''price'', JStr (ustr ''1299.00'')),
                   (ustr ''priceCurrency'', JStr (ustr ''USD''))]"
  let ?xs = "[JDict [(ustr ''price'', JStr (ustr ''1499.00''))]]"
  let ?doc = "[Inr (ustr ''breadcrumb.json''), Inr [], Inr (ustr ''not json''),
               Inr (ustr ''product.json'')]"
  have ok: "job_completes widget_page"
    by (simp add: job_completes_def sample_defs ld_lib_def product_block_def breadcrumb_block_def)
  have reach: "fst (run (steps_before_price ld_lib widget_page None @ [price_step ld_lib widget_page])
                      (init_state widget_url 1700000000)) = None"
    by (simp add: step_defs sample_defs ld_lib_def product_block_def breadcrumb_block_def word_defs)
  have content: "texts widget_page Content2 = Inr (ustr ''<html>widget</html>'')"
    by (simp add: sample_defs ld_lib_def product_block_def breadcrumb_block_def)
  have parsed: "HTMLParser ld_lib (ustr ''<html>widget</html>'') = Inr ?doc"
    by (simp add: sample_defs ld_lib_def product_block_def breadcrumb_block_def)
  have blocks: "find_json_ld ld_lib ?doc = [JDict breadcrumb_block] @ JDict product_block # []"
    by (simp add: sample_defs ld_lib_def product_block_def breadcrumb_block_def ustr_def)
  have earlier: "\<forall>x\<in>set [JDict breadcrumb_block]. \<exists>kvs t. x = JDict kvs
                      \<and> t_str ld_lib (dict_get kvs (ustr ''@type'')) = Inr t
                      \<and> \<not> contains (ustr ''Product'') t"
    by (simp add: breadcrumb_block_def t_str_def dict_get_def ustr_def)
  have tag: "t_str ld_lib (dict_get product_block (ustr ''@type'')) = Inr (ustr ''Product'')"
    by (simp add: product_block_def t_str_def dict_get_def ustr_def)
  have product: "contains (ustr ''Product'') (ustr ''Product'')"
    by (simp add: ustr_def)
  have offers: "(if truthy (dict_get product_block (ustr ''offers''))
                 then dict_get product_block (ustr ''offers'')
                 else dict_get product_block (ustr ''Offers'')) = JList (?x # ?xs)"
    by (simp add: product_block_def dict_get_def ustr_def)
  show ?thesis
    using blocks
      product_block_and_first_offer [OF ok reach content parsed blocks earlier tag product offers,
        where outdir = widget_dir]
    by simp
qed

text \<open>
  C7 as stated fails: the Product block's \<open>offers\<close> is the non-empty list holding one empty
  object, the page has price meta tags, and \<open>schema_offer\<close> is the meta-tag record, not the
  list's first element.
\<close>

theorem empty_first_offer_is_replaced:
  "structured_data_pass ld_lib gadget_page = Inr (Some (JDict empty_offer_block, JDict []))
   \<and> dict_get empty_offer_block (ustr ''offers'') = JList [JDict []]
   \<and> map_sum id schema_offer
        (returned (capture_single ld_lib gadget_page gadget_url gadget_dir None 1700000000))
       = Inr (JDict [(ustr ''price'', JStr (ustr ''1299.00'')),
                     (ustr ''priceCurrency'', JStr (ustr ''USD''))])"
  by (simp add: capture_single_def step_defs sample_defs ld_lib_def empty_offer_block_def
      gadget_page_def gadget_url_def gadget_dir_def word_defs t_str_def dict_get_def
      offer_of_def)

text \<open>
  C8, as amended. Let the job complete and every step before the structured-data pass
  succeed. The meta-tag fallback is attempted exactly when the pass completes without
  raising and leaves no offer or an empty one. It then stores a record of the meta price
  and its currency, the currency null when its attribute is missing or empty, provided
  both meta reads return and the price is not empty; when a meta read raises, or the price
  is missing or empty, \<open>schema_offer\<close> keeps what the pass left, null when there was no
  Product block, and no error is recorded. When the pass raises, the fallback is skipped,
  \<open>schema_offer\<close> stays null and the \<open>schema_error\<close> entry is the only error.
\<close>

theorem meta_fallback_gate:
  assumes ok: "job_completes W"
      and reach: "fst (run (steps_before_price L W ru @ [price_step L W]) (init_state u now)) = None"
  shows "returned (capture_single L W u outdir ru now) = Inr (job_record L W u ru now)
         \<and> schema_offer (job_record L W u ru now)
             = (case structured_data_pass L W of
                  Inl e \<Rightarrow> JNull
                | Inr found \<Rightarrow>
                    (let offer = (case found of None \<Rightarrow> JNull | Some (block, offer) \<Rightarrow> offer)
                     in if truthy offer then offer
                        else (case read_meta W of
                                (Some meta_price, meta_curr) \<Rightarrow>
                                  if meta_price \<noteq> [] then meta_offer meta_price meta_curr else offer
                              | (None, meta_curr) \<Rightarrow> offer)))
         \<and> errors (job_record L W u ru now)
             = (case structured_data_pass L W of
                  Inl e \<Rightarrow> [error_entry ''schema_error'' e]
                | Inr found \<Rightarrow> [])"
proof -
  obtain s where s: "run (steps_before_price L W ru @ [price_step L W]) (init_state u now) = (None, s)"
    using reach
    by (cases "run (steps_before_price L W ru @ [price_step L W]) (init_state u now)") auto
  note facts = job_record_schema [OF s]
  have "schema_offer (ev (snd (schema_step L W s)))
          = (case structured_data_pass L W of
                  Inl e \<Rightarrow> JNull
                | Inr found \<Rightarrow>
                    (let offer = (case found of None \<Rightarrow> JNull | Some (block, offer) \<Rightarrow> offer)
                     in if truthy offer then offer
                        else (case read_meta W of
                                (Some meta_price, meta_curr) \<Rightarrow>
                                  if meta_price \<noteq> [] then meta_offer meta_price meta_curr else offer
                              | (None, meta_curr) \<Rightarrow> offer)))"
    using facts(3)
    by (simp add: schema_step_def schema_try_def record_error_def meta_fallback_def Let_def
        split: sum.splits option.splits prod.splits)
  moreover have "errors (ev (snd (schema_step L W s)))
          = (case structured_data_pass L W of
                  Inl e \<Rightarrow> [error_entry ''schema_error'' e]
                | Inr found \<Rightarrow> [])"
    using facts(4)
    by (simp add: schema_step_def schema_try_def record_error_def meta_fallback_frame
        split: sum.splits option.splits prod.splits)
  ultimately show ?thesis
    using capture_single_completes [OF ok, of L u outdir ru now] facts(1) by simp
qed

theorem meta_fallback_gate_witness:
  "structured_data_pass sample_lib gadget_page = Inr None
   \<and> read_meta gadget_page = (Some (ustr ''1299.00''), Some (ustr ''USD''))
   \<and> schema_offer (job_record sample_lib gadget_page gadget_url None 1700000000)
       = JDict [(ustr ''price'', JStr (ustr ''1299.00'')), (ustr ''priceCurrency'', JStr (ustr ''USD''))]
   \<and> errors (job_record sample_lib gadget_page gadget_url None 1700000000) = []"
proof -
  have ok: "job_completes gadget_page"
    by (simp add: job_completes_def sample_defs gadget_page_def gadget_url_def)
  have reach: "fst (run (steps_before_price sample_lib gadget_page None
                           @ [price_step sample_lib gadget_page])
                      (init_state gadget_url 1700000000)) = None"
    by (simp add: step_defs sample_defs gadget_page_def gadget_url_def word_defs)
  have pass: "structured_data_pass sample_lib gadget_page = Inr None"
    by (simp add: structured_data_pass_def sample_defs gadget_page_def gadget_url_def)
  have meta: "read_meta gadget_page = (Some (ustr ''1299.00''), Some (ustr ''USD''))"
    by (simp add: read_meta_def sample_defs gadget_page_def gadget_url_def)
  show ?thesis
    using pass meta meta_fallback_gate [OF ok reach, of gadget_dir]
    by (simp add: meta_offer_def ustr_def)
qed

text \<open>
  C8 as stated fails: the structured data yields no offer and the price meta tag is read,
  but the page has no currency meta tag, so that read raises and the price is dropped:
  \<open>schema_offer\<close> stays null.
\<close>

theorem meta_price_dropped_without_currency_tag:
  "structured_data_pass sample_lib price_meta_only_page = Inr None
   \<and> attrs price_meta_only_page MetaPrice = Inr (Some (ustr ''1299.00''))
   \<and> attrs price_meta_only_page MetaCurrency = Inl no_element
   \<and> map_sum id (\<lambda>r. (schema_offer r, errors r))
        (returned (capture_single sample_lib price_meta_only_page widget_url widget_dir None
                     1700000000))
       = Inr (JNull, [])"
  by (simp add: capture_single_def step_defs sample_defs price_meta_only_page_def word_defs)

section \<open>Determinism of extraction\<close>

lemma run_ignores_ts:
  assumes "\<And>f. f \<in> set fs \<Longrightarrow> ignores_ts f"
  shows "run fs (set_ts t s) = apsnd (set_ts t) (run fs s)"
  using assms
proof (induction fs arbitrary: s)
  case Nil
  then show ?case by simp
next
  case (Cons f fs)
  have f: "f (set_ts t s) = apsnd (set_ts t) (f s)"
    using Cons.prems [of f] by (simp add: ignores_ts_def)
  show ?case
  proof (cases "f s")
    case (Pair r s')
    then show ?thesis using f Cons by (cases r) auto
  qed
qed

lemma shoot_ignores_ts: "ignores_ts (shoot W a n)"
  by (simp add: ignores_ts_def shoot_def set_ts_def split: option.splits)

lemma skip_ignores_ts: "ignores_ts skip"
  by (simp add: ignores_ts_def skip_def)

lemma when_found_ignores_ts:
  "ignores_ts yes \<Longrightarrow> ignores_ts no \<Longrightarrow> ignores_ts (when_found W c yes no)"
  by (simp add: ignores_ts_def when_found_def split: sum.splits)

lemma navigate_ignores_ts: "ignores_ts (navigate W)"
  by (simp add: ignores_ts_def navigate_def split: option.splits exn.splits)

lemma price_region_ignores_ts: "ignores_ts (price_region W)"
  unfolding price_region_def
  by (intro when_found_ignores_ts shoot_ignores_ts skip_ignores_ts)

lemma avail_region_ignores_ts: "ignores_ts (avail_region W)"
  by (simp add: ignores_ts_def avail_region_def when_found_def shoot_def skip_def set_ts_def
      split: sum.splits option.splits)

lemma atc_button_ignores_ts: "ignores_ts (atc_button W)"
  by (simp add: ignores_ts_def atc_button_def shoot_def set_ts_def Let_def
      split: sum.splits option.splits)

lemma availability_step_ignores_ts: "ignores_ts (availability_step L W)"
  by (simp add: ignores_ts_def availability_step_def set_ts_def split: sum.splits)

lemma variant_region_ignores_ts: "ignores_ts (variant_region W)"
  unfolding variant_region_def
  by (intro when_found_ignores_ts shoot_ignores_ts skip_ignores_ts)

lemma returns_region_ignores_ts: "ignores_ts (returns_region L W ru)"
  by (simp add: ignores_ts_def returns_region_def try_finally_def when_found_def shoot_def
      skip_def set_ts_def split: sum.splits option.splits prod.splits)

lemma footer_region_ignores_ts: "ignores_ts (footer_region W)"
  unfolding footer_region_def
  by (intro when_found_ignores_ts shoot_ignores_ts skip_ignores_ts)

lemma dom_text_ignores_ts: "ignores_ts (dom_text L W)"
  by (simp add: ignores_ts_def dom_text_def split: sum.splits)

lemma title_step_ignores_ts: "ignores_ts (title_step L W)"
  by (simp add: ignores_ts_def title_step_def set_ts_def split: sum.splits)

lemma h1_step_ignores_ts: "ignores_ts (h1_step L W)"
  by (simp add: ignores_ts_def h1_step_def set_ts_def split: sum.splits)

lemma canonical_step_ignores_ts: "ignores_ts (canonical_step L W)"
  by (simp add: ignores_ts_def canonical_step_def set_ts_def)

lemma price_step_ignores_ts: "ignores_ts (price_step L W)"
  by (simp add: ignores_ts_def price_step_def body_text_price_def set_ts_def split: sum.splits)

lemma schema_step_ignores_ts: "ignores_ts (schema_step L W)"
  by (simp add: ignores_ts_def schema_step_def schema_try_def record_error_def set_ts_def
      meta_fallback_def split: sum.splits option.splits prod.splits)

lemma body_ignores_ts:
  "run (body L W ru) (set_ts t s) = apsnd (set_ts t) (run (body L W ru) s)"
proof (rule run_ignores_ts)
  fix f
  assume "f \<in> set (body L W ru)"
  then show "ignores_ts f"
    by (auto simp: body_def steps_before_price_def capture_steps_def region_steps_def
        field_steps_def navigate_ignores_ts shoot_ignores_ts price_region_ignores_ts
        avail_region_ignores_ts atc_button_ignores_ts availability_step_ignores_ts
        variant_region_ignores_ts returns_region_ignores_ts footer_region_ignores_ts
        dom_text_ignores_ts title_step_ignores_ts h1_step_ignores_ts canonical_step_ignores_ts
        price_step_ignores_ts schema_step_ignores_ts)
qed

lemma handler_ts:
  "page_error_handler (apsnd (set_ts t) out) = set_ts t (page_error_handler out)"
  by (cases out) (simp add: page_error_handler_def record_error_def set_ts_def split: option.splits)

lemma final_state_ts:
  "page_error_handler (run (body L W ru) (init_state u now'))
   = set_ts now' (page_error_handler (run (body L W ru) (init_state u now)))"
proof -
  have "init_state u now' = set_ts now' (init_state u now)"
    by (simp add: init_state_def init_evidence_def set_ts_def)
  then show ?thesis by (simp add: body_ignores_ts handler_ts)
qed

text \<open>
  C10. Two runs of \<open>capture_single\<close> on the same target that get the same answers from the
  browser, at whatever times, return records that agree on every field but \<open>ts\<close>: \<open>url\<close>,
  \<open>title\<close>, \<open>canonical\<close>, \<open>visible_price\<close>, \<open>visible_availability\<close>, \<open>schema_product\<close>,
  \<open>schema_offer\<close> and \<open>errors\<close>, in the same order; they raise the same exception if one of
  them raises, and they write the same screenshot files.
\<close>

theorem capture_deterministic:
  "map_sum id non_timestamp_fields (returned (capture_single L W u outdir ru now))
   = map_sum id non_timestamp_fields (returned (capture_single L W u outdir ru now'))
   \<and> shots_written (capture_single L W u outdir ru now)
     = shots_written (capture_single L W u outdir ru now')"
  unfolding capture_single_def final_state_ts [of L W ru u now' now]
  by (simp add: Let_def set_ts_def non_timestamp_fields_def raises_def leave_playwright_def
      split: option.splits)

theorem capture_deterministic_witness:
  "map_sum id non_timestamp_fields
     (returned (capture_single sample_lib widget_page widget_url widget_dir None 1700000000))
   = map_sum id non_timestamp_fields
       (returned (capture_single sample_lib widget_page widget_url widget_dir None 1700003600))
   \<and> map_sum id ts
         (returned (capture_single sample_lib widget_page widget_url widget_dir None 1700003600))
       = Inr 1700003600"
proof -
  have "map_sum id ts
          (returned (capture_single sample_lib widget_page widget_url widget_dir None 1700003600))
        = Inr 1700003600"
    by (simp add: capture_single_def step_defs sample_defs word_defs)
  then show ?thesis
    using capture_deterministic [of sample_lib widget_page widget_url widget_dir None
        1700000000 1700003600]
    by simp
qed

section \<open>The batch runner\<close>

lemma run_one_completes:
  assumes "job_completes (job_world j)" "slugify L (row_url j) = Inr slug"
  shows "returned (run_one L dir j) = Inr (snd (job_write L dir j))"
    and "json_written (run_one L dir j) = [job_write L dir j]"
  using assms capture_single_completes [OF assms(1)]
  by (simp_all add: run_one_def job_write_def job_dir_def)

lemma finish_all:
  assumes "\<forall>j\<in>set js. job_completes (job_world j) \<and> (\<exists>slug. slugify L (row_url j) = Inr slug)"
  shows "finish L dir js written = Done (written @ map (job_write L dir) js)"
  using assms
proof (induction js arbitrary: written)
  case Nil
  then show ?case by simp
next
  case (Cons j js)
  then obtain slug where j: "job_completes (job_world j)" "slugify L (row_url j) = Inr slug"
    by auto
  have "finish L dir (j # js) written = finish L dir js (written @ [job_write L dir j])"
    using run_one_completes [OF j, of dir] by simp
  also have "\<dots> = Done ((written @ [job_write L dir j]) @ map (job_write L dir) js)"
    using Cons by simp
  finally show ?case by simp
qed

lemma order_covers:
  assumes "mset order = mset [0..<length jobs]"
  shows "filter (\<lambda>i. i < length jobs) order = order"
    and "mset (map (\<lambda>i. jobs ! i) order) = mset jobs"
proof -
  have "set order = {0..<length jobs}"
    using assms by (metis mset_eq_setD set_upt)
  then show "filter (\<lambda>i. i < length jobs) order = order"
    by (auto simp: filter_id_conv)
  have "mset (map (\<lambda>i. jobs ! i) order) = image_mset (\<lambda>i. jobs ! i) (mset order)"
    by simp
  also have "\<dots> = mset (map (\<lambda>i. jobs ! i) [0..<length jobs])"
    using assms by simp
  also have "\<dots> = mset jobs"
    by (simp add: map_nth)
  finally show "mset (map (\<lambda>i. jobs ! i) order) = mset jobs" .
qed

text \<open>
  C2, as amended. Let the batch run with a concurrency of at least 1, and let every job
  compute its slug and have its set-up, tear-down and write succeed. Then \<open>batch\<close> returns
  after every job has finished, and each job has written exactly one record, the record of
  that job alone, into the directory named by the slug of its URL. The writes happen in
  completion order; \<open>batch\<close> returns no sequence. Taken together they are one record per
  submitted target, and when the directories differ, the files on disk hold for each target
  its own record, whatever the completion order.
\<close>

theorem batch_one_record_per_job:
  assumes conc: "0 < concurrency"
      and perm: "mset order = mset [0..<length jobs]"
      and all_ok: "\<forall>j\<in>set jobs. job_completes (job_world j)
                                  \<and> (\<exists>slug. slugify L (row_url j) = Inr slug)"
  shows "batch L dir concurrency jobs order = Done (map (\<lambda>i. job_write L dir (jobs ! i)) order)
         \<and> mset (map (\<lambda>i. job_write L dir (jobs ! i)) order) = mset (map (job_write L dir) jobs)
         \<and> (distinct (map (job_dir L dir) jobs) \<longrightarrow>
              (\<forall>j\<in>set jobs. map_of (map (\<lambda>i. job_write L dir (jobs ! i)) order) (job_dir L dir j)
                               = Some (snd (job_write L dir j))))"
proof -
  let ?done = "map (\<lambda>i. jobs ! i) order"
  let ?log = "map (\<lambda>i. job_write L dir (jobs ! i)) order"
  note cover = order_covers [OF perm]
  have log: "?log = map (job_write L dir) ?done" by simp
  have "set ?done = set jobs"
    using cover(2) by (metis mset_eq_setD)
  then have ok_done: "\<forall>j\<in>set ?done. job_completes (job_world j)
                                  \<and> (\<exists>slug. slugify L (row_url j) = Inr slug)"
    using all_ok by simp
  have run: "batch L dir concurrency jobs order = Done ?log"
  proof (cases "jobs = []")
    case True
    then have "order = []" using perm by simp
    then show ?thesis using True conc by (simp add: batch_def)
  next
    case False
    then show ?thesis
      using conc cover(1) finish_all [OF ok_done, of dir "[]"]
      by (simp add: batch_def comp_def)
  qed
  have count: "mset ?log = mset (map (job_write L dir) jobs)"
    unfolding log using cover(2) by (metis mset_map)
  have disk: "map_of ?log (job_dir L dir j) = Some (snd (job_write L dir j))"
    if d: "distinct (map (job_dir L dir) jobs)" and j: "j \<in> set jobs" for j
  proof -
    have "mset (map fst ?log) = mset (map (job_dir L dir) jobs)"
      using count by (metis (no_types, lifting) job_write_def fst_conv map_eq_conv map_map comp_apply mset_map)
    then have "distinct (map fst ?log)"
      using d by (metis mset_eq_imp_distinct_iff)
    moreover have "job_write L dir j \<in> set ?log"
      using count j by (metis image_eqI mset_eq_setD set_map)
    ultimately show ?thesis
      by (simp add: job_write_def)
  qed
  show ?thesis using run count disk by blast
qed

theorem batch_one_record_per_job_witness:
  "mset [2, 0, 1] = mset [0..<length three_jobs]
   \<and> distinct (map (job_dir sample_lib (ustr ''evidence'')) three_jobs)
   \<and> (case batch sample_lib (ustr ''evidence'') 3 three_jobs [2, 0, 1] of
         Done written \<Rightarrow> map (\<lambda>(d, r). (d, errors r)) written
       | Raises e \<Rightarrow> []
       | Hangs \<Rightarrow> [])
       = [(ustr ''evidence/gizmo-5bf76d0780'', []),
          (ustr ''evidence/widget-8f636d65fc'', []),
          (ustr ''evidence/gadget-f77dd36a45'',
           [ustr ''page_error:TimeoutError:Timeout 25000ms exceeded.''])]"
proof -
  have conc: "(0::int) < 3" by simp
  have perm: "mset [2, 0, 1] = mset [0..<length three_jobs]"
    by (simp add: three_jobs_def upt_rec)
  have slugs: "slugify sample_lib widget_url = Inr (ustr ''widget-8f636d65fc'')"
    "slugify sample_lib gadget_url = Inr (ustr ''gadget-f77dd36a45'')"
    "slugify sample_lib gizmo_url = Inr (ustr ''gizmo-5bf76d0780'')"
    by (simp_all add: slugify_def path_name_def sample_defs gadget_url_def gizmo_url_def ustr_def)
  have all_ok: "\<forall>j\<in>set three_jobs. job_completes (job_world j)
                                  \<and> (\<exists>slug. slugify sample_lib (row_url j) = Inr slug)"
    using slugs
    by (simp add: three_jobs_def job_completes_def sample_defs unreachable_page_def
        sold_out_page_def)
  have dirs: "map (job_dir sample_lib (ustr ''evidence'')) three_jobs
                = [ustr ''evidence/widget-8f636d65fc'', ustr ''evidence/gadget-f77dd36a45'',
                   ustr ''evidence/gizmo-5bf76d0780'']"
    using slugs by (simp add: three_jobs_def job_dir_def sample_lib_def ustr_def)
  have distinct: "distinct (map (job_dir sample_lib (ustr ''evidence'')) three_jobs)"
    unfolding dirs by (simp add: ustr_def)
  have errs: "map (\<lambda>j. errors (snd (job_write sample_lib (ustr ''evidence'') j))) three_jobs
                = [[], [ustr ''page_error:TimeoutError:Timeout 25000ms exceeded.''], []]"
    by (simp add: three_jobs_def job_write_def job_record_def step_defs sample_defs gadget_url_def
        gizmo_url_def nav_timeout_def unreachable_page_def sold_out_page_def word_defs)
  show ?thesis
    using perm distinct dirs errs
      batch_one_record_per_job [OF conc perm all_ok, of "ustr ''evidence''"]
    by (simp add: three_jobs_def job_write_def)
qed

text \<open>
  C2 as stated fails: in a batch of one target whose browser cannot be launched, the
  exception leaves \<open>capture_single\<close> and the batch; no record is written for the target.
\<close>

theorem launch_failure_aborts_batch:
  "act no_browser Launch = Some launch_error
   \<and> batch sample_lib (ustr ''evidence'') 3 [doomed_job] [0] = Raises launch_error
   \<and> json_written (run_one sample_lib (ustr ''evidence'') doomed_job) = []"
  by (simp add: batch_def run_one_def slugify_def path_name_def capture_single_def
      leave_playwright_def raises_def doomed_job_def no_browser_def launch_error_def sample_defs
      ustr_def)

section \<open>The slug\<close>

lemma split_on_parts: "q \<in> set (split_on sep p) \<Longrightarrow> sep \<notin> set q"
proof (induction p arbitrary: q)
  case Nil
  then show ?case by simp
next
  case (Cons c cs)
  show ?case
  proof (cases "c = sep")
    case True
    then show ?thesis using Cons by auto
  next
    case False
    obtain r rs where rs: "split_on sep cs = r # rs"
      by (cases "split_on sep cs") (cases cs, auto split: if_splits list.splits)
    then have "q = c # r \<or> q \<in> set rs" using Cons.prems False by simp
    then show ?thesis
      using Cons.IH [of r] Cons.IH [of q] rs False by auto
  qed
qed

lemma path_name_no_slash: "47 \<notin> set (path_name p)"
proof -
  let ?parts = "filter (\<lambda>q. q \<noteq> [] \<and> q \<noteq> ustr ''.'') (split_on 47 p)"
  show ?thesis
  proof (cases ?parts)
    case Nil
    then show ?thesis by (simp add: path_name_def)
  next
    case (Cons q qs)
    then have "last (q # qs) \<in> set ?parts"
      by (metis last_in_set list.distinct(1))
    then have "last (q # qs) \<in> set (split_on 47 p)" by simp
    then have "47 \<notin> set (last (q # qs))" by (rule split_on_parts)
    then show ?thesis using Cons by (simp add: path_name_def)
  qed
qed

text \<open>
  The slug of a URL is the last segment of its path, or \<open>product\<close> when the path has none (the
  empty path and \<open>/\<close> have none), then a hyphen, then the first ten characters of the SHA-1
  digest of the URL. The segment holds no \<open>/\<close>.
\<close>

theorem slug_shape:
  assumes "sha1_hexdigest L u = Inr digest" and "urlparse_path L u = Inr path"
  shows "slugify L u
           = Inr ((if path_name path = [] then ustr ''product'' else path_name path)
                  @ ustr ''-'' @ take 10 digest)
         \<and> 47 \<notin> set (if path_name path = [] then ustr ''product'' else path_name path)
         \<and> path_name [] = [] \<and> path_name (ustr ''/'') = []"
  using assms path_name_no_slash [of path]
  by (simp add: slugify_def Let_def path_name_def ustr_def)

theorem slug_shape_witness:
  "sha1_hexdigest sample_lib widget_url = Inr (ustr ''8f636d65fcf12c3dfc1e465d8ebc52ecf7cb6beb'')
   \<and> urlparse_path sample_lib widget_url = Inr (ustr ''/products/widget'')
   \<and> slugify sample_lib widget_url = Inr (ustr ''widget-8f636d65fc'')"
proof -
  have digest: "sha1_hexdigest sample_lib widget_url
                  = Inr (ustr ''8f636d65fcf12c3dfc1e465d8ebc52ecf7cb6beb'')"
    by (simp add: sample_defs)
  have path: "urlparse_path sample_lib widget_url = Inr (ustr ''/products/widget'')"
    by (simp add: sample_defs)
  have name: "path_name (ustr ''/products/widget'') = ustr ''widget''"
    by (simp add: path_name_def ustr_def)
  show ?thesis
    using digest path name slug_shape [OF digest path]
    by (simp add: ustr_def)
qed

text \<open>
  Two URLs whose digests have the same length get the same slug only if the first ten
  characters of their digests agree.
\<close>

theorem slug_collision_needs_hash_collision:
  assumes "sha1_hexdigest L u1 = Inr d1" and "sha1_hexdigest L u2 = Inr d2"
      and "length d1 = length d2"
      and "slugify L u1 = Inr s" and "slugify L u2 = Inr s"
  shows "take 10 d1 = take 10 d2"
proof -
  obtain b1 b2 where "s = b1 @ ustr ''-'' @ take 10 d1" "s = b2 @ ustr ''-'' @ take 10 d2"
    using assms by (auto simp: slugify_def Let_def split: sum.splits)
  then have "(b1 @ ustr ''-'') @ take 10 d1 = (b2 @ ustr ''-'') @ take 10 d2" by simp
  moreover have "length (take 10 d1) = length (take 10 d2)" using assms(3) by simp
  ultimately show ?thesis by (metis append_eq_append_conv)
qed

theorem slug_collision_needs_hash_collision_witness:
  "sha1_hexdigest sample_lib widget_url = Inr (ustr ''8f636d65fcf12c3dfc1e465d8ebc52ecf7cb6beb'')
   \<and> slugify sample_lib widget_url = Inr (ustr ''widget-8f636d65fc'')
   \<and> take 10 (ustr ''8f636d65fcf12c3dfc1e465d8ebc52ecf7cb6beb'') = ustr ''8f636d65fc''"
proof -
  have digest: "sha1_hexdigest sample_lib widget_url
                  = Inr (ustr ''8f636d65fcf12c3dfc1e465d8ebc52ecf7cb6beb'')"
    by (simp add: sample_defs)
  have slug: "slugify sample_lib widget_url = Inr (ustr ''widget-8f636d65fc'')"
    by (simp add: slugify_def path_name_def sample_defs ustr_def)
  have "take 10 (ustr ''8f636d65fcf12c3dfc1e465d8ebc52ecf7cb6beb'') = ustr ''8f636d65fc''"
    by (simp add: ustr_def)
  then show ?thesis
    using digest slug slug_collision_needs_hash_collision [OF digest digest refl slug slug]
    by simp
qed

section \<open>The first match of the price pattern\<close>

lemma amount_at_prefix: "amount_at L s = Some m \<Longrightarrow> prefix m s"
  by (auto simp: amount_at_def fraction_part_def Let_def prefix_def
      split: list.splits if_splits)
     (metis append.assoc append_Cons append_Nil takeWhile_dropWhile_id)+

lemma price_at_prefix: "price_at L s = Some m \<Longrightarrow> prefix m s"
proof (cases s)
  case Nil
  then show "price_at L s = Some m \<Longrightarrow> prefix m s" by (simp add: price_at_def)
next
  case (Cons c rest)
  assume m: "price_at L s = Some m"
  show "prefix m s"
  proof (cases rest)
    case Nil
    then show ?thesis
      using m Cons amount_at_prefix [of L rest]
      by (auto simp: price_at_def split: if_splits option.splits)
  next
    case (Cons x rest')
    then show ?thesis
      using m \<open>s = c # rest\<close> amount_at_prefix [of L rest] amount_at_prefix [of L rest']
      by (auto simp: price_at_def split: if_splits option.splits)
  qed
qed

text \<open>
  What \<open>price_search\<close> returns is the leftmost match: it occurs in the text, the pattern
  matches it there, and the pattern matches at no earlier position. It returns nothing only
  when the pattern matches at no position.
\<close>

theorem price_search_leftmost:
  "price_search L t = Some m \<Longrightarrow>
     \<exists>pre post. t = pre @ m @ post \<and> price_at L (m @ post) = Some m
                \<and> (\<forall>k<length pre. price_at L (drop k t) = None)"
proof (induction t)
  case Nil
  then show ?case by simp
next
  case (Cons c cs)
  show ?case
  proof (cases "price_at L (c # cs)")
    case (Some m')
    then have "m' = m" using Cons.prems by simp
    then obtain post where "c # cs = m @ post"
      using price_at_prefix [OF Some] by (auto simp: prefix_def)
    then show ?thesis using Some \<open>m' = m\<close> by (intro exI [of _ "[]"] exI [of _ post]) simp
  next
    case None
    then have "price_search L cs = Some m" using Cons.prems by simp
    then obtain pre post where p: "cs = pre @ m @ post" "price_at L (m @ post) = Some m"
      "\<forall>k<length pre. price_at L (drop k cs) = None"
      using Cons.IH by blast
    have "\<forall>k<length (c # pre). price_at L (drop k (c # cs)) = None"
    proof (intro allI impI)
      fix k assume "k < length (c # pre)"
      then show "price_at L (drop k (c # cs)) = None"
        using None p(3) by (cases k) auto
    qed
    then show ?thesis
      using p by (intro exI [of _ "c # pre"] exI [of _ post]) simp
  qed
qed

theorem price_search_leftmost_witness:
  "price_search sample_lib (ustr ''Now $1,299.00 (was $1,499.00)'') = Some (ustr ''$1,299.00'')
   \<and> (\<exists>pre post. ustr ''Now $1,299.00 (was $1,499.00)'' = pre @ ustr ''$1,299.00'' @ post
         \<and> price_at sample_lib (ustr ''$1,299.00'' @ post) = Some (ustr ''$1,299.00'')
         \<and> (\<forall>k<length pre.
               price_at sample_lib (drop k (ustr ''Now $1,299.00 (was $1,499.00)'')) = None))"
proof -
  have found: "price_search sample_lib (ustr ''Now $1,299.00 (was $1,499.00)'')
                 = Some (ustr ''$1,299.00'')"
    by (simp add: word_defs sample_lib_def)
  show ?thesis
    using found price_search_leftmost [OF found] by simp
qed

theorem price_search_none:
  "price_search L t = None \<longleftrightarrow> (\<forall>k\<le>length t. price_at L (drop k t) = None)"
proof (induction t)
  case Nil
  then show ?case by (simp add: price_at_def)
next
  case (Cons c cs)
  show ?case
  proof (cases "price_at L (c # cs)")
    case (Some m)
    then show ?thesis by (auto intro: exI [of _ 0])
  next
    case None
    have "(\<forall>k\<le>length (c # cs). price_at L (drop k (c # cs)) = None)
          \<longleftrightarrow> (\<forall>k\<le>length cs. price_at L (drop k cs) = None)"
    proof
      assume a: "\<forall>k\<le>length (c # cs). price_at L (drop k (c # cs)) = None"
      show "\<forall>k\<le>length cs. price_at L (drop k cs) = None"
      proof (intro allI impI)
        fix k assume "k \<le> length cs"
        then show "price_at L (drop k cs) = None" using a [rule_format, of "Suc k"] by simp
      qed
    next
      assume a: "\<forall>k\<le>length cs. price_at L (drop k cs) = None"
      show "\<forall>k\<le>length (c # cs). price_at L (drop k (c # cs)) = None"
      proof (intro allI impI)
        fix k assume "k \<le> length (c # cs)"
        then show "price_at L (drop k (c # cs)) = None" using a None by (cases k) auto
      qed
    qed
    then show ?thesis using None Cons.IH by simp
  qed
qed

end
